theory Spec2Isabelle
  imports Complex_Main "HOL-Library.AList" "HOL-Library.Multiset"
begin

section \<open>JavaScript values and string primitives\<close>

text \<open>
  The two Lightning web components (the record viewer and the record modal) work on
  dynamically typed values that arrive as JSON from the Apex controller. A value is
  \<open>undefined\<close>, \<open>null\<close>, a boolean, a number, a string or an object. Numbers are the
  integers (every JSON integer up to \<open>2^53\<close> is one); an object is its list of own
  properties in insertion order. Strings are lists of code units below 256.
\<close>

datatype jsval =
    JUndefined
  | JNull
  | JBool bool
  | JNum int
  | JStr string
  | JObj "(string \<times> jsval) list"

text \<open>\<open>val == null\<close> holds for \<open>null\<close> and \<open>undefined\<close> only.\<close>

fun isNullish :: "jsval \<Rightarrow> bool" where
  "isNullish JUndefined = True"
| "isNullish JNull = True"
| "isNullish _ = False"

text \<open>Truthiness, as \<open>!x\<close>, \<open>x || y\<close> and \<open>if (x)\<close> test it.\<close>

fun truthy :: "jsval \<Rightarrow> bool" where
  "truthy JUndefined = False"
| "truthy JNull = False"
| "truthy (JBool b) = b"
| "truthy (JNum n) = (n \<noteq> 0)"
| "truthy (JStr s) = (s \<noteq> [])"
| "truthy (JObj ps) = True"

text \<open>
  A plain object (a record, a row, a payload) is the list of its properties. Reading a
  property that is missing gives \<open>undefined\<close>; writing one (\<open>{...obj, [k]: v}\<close> or
  \<open>obj[k] = v\<close>) replaces the value in place or appends the new key.
\<close>

type_synonym obj = "(string \<times> jsval) list"

definition getProp :: "obj \<Rightarrow> string \<Rightarrow> jsval" where
  "getProp ob k = (case map_of ob k of None \<Rightarrow> JUndefined | Some v \<Rightarrow> v)"

definition setProp :: "obj \<Rightarrow> string \<Rightarrow> jsval \<Rightarrow> obj" where
  "setProp ob k v = AList.update k v ob"

subsection \<open>Characters\<close>

definition code :: "char \<Rightarrow> nat" where
  "code c = of_char c"

definition isDigit :: "char \<Rightarrow> bool" where
  "isDigit c = (48 \<le> code c \<and> code c \<le> 57)"

definition isUpper :: "char \<Rightarrow> bool" where
  "isUpper c = (65 \<le> code c \<and> code c \<le> 90)"

definition isLower :: "char \<Rightarrow> bool" where
  "isLower c = (97 \<le> code c \<and> code c \<le> 122)"

definition isAlpha :: "char \<Rightarrow> bool" where
  "isAlpha c = (isUpper c \<or> isLower c)"

text \<open>
  White space and line terminators that \<open>String.prototype.trim\<close> strips, among the code
  units below 256: TAB, LF, VT, FF, CR, SPACE and NBSP.
\<close>

definition isSpace :: "char \<Rightarrow> bool" where
  "isSpace c = (code c \<in> {9, 10, 11, 12, 13, 32, 160})"

text \<open>
  \<open>toLowerCase\<close> on one code unit: the ASCII capitals and the Latin-1 capitals
  (\<open>0xC0\<close> to \<open>0xDE\<close> but the multiplication sign \<open>0xD7\<close>) move up by 32.
\<close>

definition lowerChar :: "char \<Rightarrow> char" where
  "lowerChar c =
     (if isUpper c \<or> (192 \<le> code c \<and> code c \<le> 222 \<and> code c \<noteq> 215)
      then char_of (code c + 32) else c)"

subsection \<open>Strings\<close>

definition toLowerCase :: "string \<Rightarrow> string" where
  "toLowerCase s = map lowerChar s"

definition trim :: "string \<Rightarrow> string" where
  "trim s = rev (dropWhile isSpace (rev (dropWhile isSpace s)))"

definition strIncludes :: "string \<Rightarrow> char \<Rightarrow> bool" where
  "strIncludes s c = (c \<in> set s)"

text \<open>\<open>s.lastIndexOf(c)\<close>: the last position of \<open>c\<close>, or \<open>-1\<close>.\<close>

fun lastIndexOf :: "string \<Rightarrow> char \<Rightarrow> int" where
  "lastIndexOf [] c = -1"
| "lastIndexOf (x # xs) c =
     (let r = lastIndexOf xs c in
      if r \<ge> 0 then r + 1 else if x = c then 0 else -1)"

text \<open>\<open>s.slice(k)\<close> for \<open>k \<ge> 0\<close>, and \<open>s.slice(0, -k)\<close>.\<close>

definition sliceFrom :: "string \<Rightarrow> int \<Rightarrow> string" where
  "sliceFrom s k = drop (nat k) s"

definition sliceDropLast :: "string \<Rightarrow> nat \<Rightarrow> string" where
  "sliceDropLast s k = take (length s - k) s"

definition endsWith :: "string \<Rightarrow> string \<Rightarrow> bool" where
  "endsWith s suf = (length suf \<le> length s \<and> drop (length s - length suf) s = suf)"

text \<open>Decimal rendering of an integer, as \<open>String(n)\<close> gives it.\<close>

definition digitChar :: "nat \<Rightarrow> char" where
  "digitChar d = char_of (48 + d mod 10)"

fun natDigits :: "nat \<Rightarrow> string" where
  "natDigits n = (if n < 10 then [digitChar n] else natDigits (n div 10) @ [digitChar n])"

declare natDigits.simps [simp del]

definition intToString :: "int \<Rightarrow> string" where
  "intToString i = (if i < 0 then CHR ''-'' # natDigits (nat (- i)) else natDigits (nat i))"

text \<open>\<open>String(val)\<close>. An object without its own \<open>toString\<close> renders as \<open>[object Object]\<close>.\<close>

fun toStr :: "jsval \<Rightarrow> string" where
  "toStr JUndefined = ''undefined''"
| "toStr JNull = ''null''"
| "toStr (JBool b) = (if b then ''true'' else ''false'')"
| "toStr (JNum n) = intToString n"
| "toStr (JStr s) = s"
| "toStr (JObj ps) = ''[object Object]''"

section \<open>Field validation (record modal)\<close>

text \<open>
  \<open>EMAIL_REGEX = /^[a-zA-Z0-9._%+-]+@[a-zA-Z0-9.-]+\.[a-zA-Z]{2,}$/\<close>.
  The expression is a sequence of character-class repetitions and literal characters,
  anchored at both ends, so \<open>test\<close> asks whether the whole string splits into
  consecutive pieces matching the parts in order.
\<close>

datatype rx =
    Lit char                     \<comment> \<open>one literal character\<close>
  | Rep nat "char \<Rightarrow> bool"       \<comment> \<open>\<open>[class]{n,}\<close>: at least \<open>n\<close> characters of the class\<close>

fun rxPiece :: "rx \<Rightarrow> string \<Rightarrow> bool" where
  "rxPiece (Lit c) s = (s = [c])"
| "rxPiece (Rep n p) s = (n \<le> length s \<and> list_all p s)"

text \<open>A full match of a sequence: some split point gives the first piece and the rest.\<close>

fun rxTest :: "rx list \<Rightarrow> string \<Rightarrow> bool" where
  "rxTest [] s = (s = [])"
| "rxTest (r # rs) s =
     list_ex (\<lambda>i. rxPiece r (take i s) \<and> rxTest rs (drop i s)) [0 ..< Suc (length s)]"

definition localChar :: "char \<Rightarrow> bool" where
  "localChar c = (isAlpha c \<or> isDigit c \<or> c \<in> set ''._%+-'')"

definition domainChar :: "char \<Rightarrow> bool" where
  "domainChar c = (isAlpha c \<or> isDigit c \<or> c \<in> set ''.-'')"

definition EMAIL_REGEX :: "rx list" where
  "EMAIL_REGEX =
     [Rep 1 localChar, Lit CHR ''@'', Rep 1 domainChar, Lit CHR ''.'', Rep 2 isAlpha]"

definition isBlank :: "jsval \<Rightarrow> bool" where
  "isBlank s = (isNullish s \<or> trim (toStr s) = [])"

definition isValidEmail :: "jsval \<Rightarrow> bool" where
  "isValidEmail s =
     (if isNullish s \<or> trim (toStr s) = [] then True
      else rxTest EMAIL_REGEX (trim (toStr s)))"

definition isValidPhone :: "jsval \<Rightarrow> bool" where
  "isValidPhone s =
     (if isNullish s \<or> trim (toStr s) = [] then True
      else (let digitsOnly = filter isDigit (toStr s) in length digitsOnly \<ge> 10))"


text \<open>
  The pattern in the specification's words: the string is \<open>local@domain.tld\<close> with a
  non-empty local part, a non-empty domain, a dot and a top-level domain of at least two
  letters, and \<open>@\<close> occurs once.
\<close>

definition emailPattern_spec :: "string \<Rightarrow> bool" where
  "emailPattern_spec t =
     (\<exists>loc host tld.
        t = loc @ ''@'' @ host @ ''.'' @ tld \<and>
        loc \<noteq> [] \<and> list_all localChar loc \<and>
        host \<noteq> [] \<and> list_all domainChar host \<and>
        2 \<le> length tld \<and> list_all isAlpha tld \<and>
        count_list t CHR ''@'' = 1)"

section \<open>Lookup target resolution (record modal)\<close>

text \<open>
  A field descriptor as the controller sends it. The configuration is read under both
  casings of a key (\<open>fieldName\<close> and \<open>FieldName\<close>, and so on); a key that is absent or
  \<open>null\<close> is \<open>None\<close>. \<open>ftype\<close> is the \<open>type\<close> key.
\<close>

record fieldDef =
  fieldName :: "string option"
  FieldName :: "string option"
  label :: "string option"
  ftype :: "string option"
  required :: bool
  isExternalLookup :: bool
  IsExternalLookup :: bool
  lookupObjectApiName :: "string option"
  LookupObjectApiName :: "string option"

text \<open>\<open>a || b\<close> for a string-or-missing \<open>a\<close>: the empty string is falsy.\<close>

definition orElse :: "string option \<Rightarrow> string \<Rightarrow> string" where
  "orElse a b = (case a of None \<Rightarrow> b | Some s \<Rightarrow> if s \<noteq> [] then s else b)"

text \<open>\<open>f.fieldName || f.FieldName || ''\<close>\<close>

definition fieldKey :: "fieldDef \<Rightarrow> string" where
  "fieldKey f = orElse (fieldName f) (orElse (FieldName f) [])"

definition getLookupObjectForField :: "fieldDef option \<Rightarrow> string" where
  "getLookupObjectForField fieldDef =
     (case fieldDef of
        None \<Rightarrow> []
      | Some fd \<Rightarrow>
          (let fromServer =
                 (case lookupObjectApiName fd of
                    Some s \<Rightarrow> trim s
                  | None \<Rightarrow> (case LookupObjectApiName fd of Some s \<Rightarrow> trim s | None \<Rightarrow> []))
           in if fromServer \<noteq> [] then fromServer
              else
                (let name0 = trim (fieldKey fd);
                     name = (if strIncludes name0 CHR ''.''
                             then trim (sliceFrom name0 (lastIndexOf name0 CHR ''.'' + 1))
                             else name0)
                 in if length name > 2 \<and> endsWith (toLowerCase name) ''id''
                    then (let base = sliceDropLast name 2
                          in if toLowerCase base = ''owner'' then ''User'' else base)
                    else [])))"

text \<open>
  The resolution in the specification's words. The configured target is the first of
  the two casings that is present; the last segment of a qualified name is what follows
  its last dot.
\<close>

definition configuredTarget_spec :: "fieldDef \<Rightarrow> string option" where
  "configuredTarget_spec fd =
     (case lookupObjectApiName fd of Some s \<Rightarrow> Some s | None \<Rightarrow> LookupObjectApiName fd)"

definition lastSegment_spec :: "string \<Rightarrow> string" where
  "lastSegment_spec s = rev (takeWhile (\<lambda>c. c \<noteq> CHR ''.'') (rev s))"

definition endsWithId_spec :: "string \<Rightarrow> bool" where
  "endsWithId_spec n = (\<exists>b x y. n = b @ [x, y] \<and> toLowerCase [x, y] = ''id'')"

definition derivedTarget_spec :: "string \<Rightarrow> string" where
  "derivedTarget_spec fname =
     (let n = trim (lastSegment_spec (trim fname)) in
      if 2 < length n \<and> endsWithId_spec n
      then (if toLowerCase (butlast (butlast n)) = ''owner'' then ''User''
            else butlast (butlast n))
      else [])"

definition lookupTarget_spec :: "fieldDef \<Rightarrow> string" where
  "lookupTarget_spec fd =
     (case configuredTarget_spec fd of
        Some t \<Rightarrow> if trim t \<noteq> [] then trim t else derivedTarget_spec (fieldKey fd)
      | None \<Rightarrow> derivedTarget_spec (fieldKey fd))"

text \<open>A descriptor that carries only a field name.\<close>

definition plainField :: "string \<Rightarrow> fieldDef" where
  "plainField n =
     \<lparr> fieldName = Some n, FieldName = None, label = None, ftype = None,
       required = False, isExternalLookup = False, IsExternalLookup = False,
       lookupObjectApiName = None, LookupObjectApiName = None \<rparr>"

section \<open>Shared shapes of the two components\<close>

text \<open>
  Both components carry the object type they work on and a top-level error message.
\<close>

record component =
  objectApiName :: string
  errorMessage :: string

text \<open>
  What the Apex controller answers. Every answer has \<open>success\<close> and may have
  \<open>errorMessage\<close> (here \<open>respErrorMessage\<close>); the answer of \<open>getRecords\<close> also has
  \<open>records\<close> and \<open>columns\<close>. A raw column has the keys \<open>label\<close>, \<open>fieldName\<close>,
  \<open>type\<close>, \<open>isLink\<close>, \<open>sortable\<close> and \<open>options\<close>.
\<close>

record rawColumn =
  col_label :: string
  col_fieldName :: string
  col_type :: "string option"
  col_isLink :: bool
  col_sortable :: bool
  col_options :: "(string \<times> string) list"

record response =
  success :: bool
  respErrorMessage :: "string option"
  records :: "obj list option"
  columns :: "rawColumn list option"

text \<open>A rejected promise: \<open>error.body?.message\<close> and \<open>error.message\<close>.\<close>

record jsError =
  body_message :: "string option"
  message :: "string option"

text \<open>\<open>error.body?.message || error.message || fallback\<close>\<close>

definition errorText :: "jsError \<Rightarrow> string \<Rightarrow> string" where
  "errorText e fallback = orElse (body_message e) (orElse (message e) fallback)"

text \<open>The calls to the controller that a handler can start.\<close>

datatype call =
    GetRecords string nat "string option"
  | DeleteRecord string string
  | UpdateRecord string jsval obj
  | CreateRecord string obj
  | SearchExternalRecords string string nat

section \<open>The record viewer\<close>

datatype colDef =
    ButtonCol string string bool
  | FieldCol string string string bool
  | PicklistCol string string "(string \<times> string) list" bool
  | ActionCol

record viewer = component +
  tableData :: "obj list"
  tableColumns :: "colDef list"
  isLoading :: bool
  hasSearched :: bool
  currentPage :: int
  pageSize :: int
  sortedBy :: string
  sortedDirection :: string
  searchTerm :: string

definition FETCH_LIMIT :: nat where
  "FETCH_LIMIT = 200"

definition totalRecords :: "viewer \<Rightarrow> int" where
  "totalRecords st = int (length (tableData st))"

text \<open>
  \<open>Math.ceil(a / b)\<close> on integers, \<open>b\<close> not zero (the division is exact on the
  integers below \<open>2^53\<close>).
\<close>

definition ceilDiv :: "int \<Rightarrow> int \<Rightarrow> int" where
  "ceilDiv a b = - ((- a) div b)"

definition totalPages :: "viewer \<Rightarrow> int" where
  "totalPages st =
     (if totalRecords st = 0 \<or> pageSize st \<le> 0 then 1
      else ceilDiv (totalRecords st) (pageSize st))"

text \<open>
  \<open>parseInt(s, 10)\<close>: leading white space is skipped, a sign is read, then the longest
  run of digits; no digit gives \<open>NaN\<close> (\<open>None\<close>).
\<close>

definition digitsValue :: "string \<Rightarrow> int" where
  "digitsValue ds = foldl (\<lambda>acc c. 10 * acc + (int (code c) - 48)) 0 ds"

definition parseInt10 :: "string \<Rightarrow> int option" where
  "parseInt10 s =
     (let s1 = dropWhile isSpace s;
          neg = (case s1 of [] \<Rightarrow> False | c # r \<Rightarrow> c = CHR ''-'');
          s2 = (case s1 of [] \<Rightarrow> [] | c # r \<Rightarrow> if c = CHR ''-'' \<or> c = CHR ''+'' then r else s1);
          ds = takeWhile isDigit s2
      in if ds = [] then None
         else Some (if neg then - digitsValue ds else digitsValue ds))"

text \<open>\<open>parseInt(event.detail.value, 10) || 25\<close>: \<open>NaN\<close> and \<open>0\<close> are falsy.\<close>

definition newPageSize :: "string \<Rightarrow> int" where
  "newPageSize v = (case parseInt10 v of None \<Rightarrow> 25 | Some n \<Rightarrow> if n = 0 then 25 else n)"

definition handlePageSizeChange :: "viewer \<Rightarrow> string \<Rightarrow> viewer" where
  "handlePageSizeChange st v =
     (let newSize = newPageSize v in
      if newSize = pageSize st then st
      else
        (let st1 = st\<lparr>pageSize := newSize\<rparr>;
             maxPage = max 1 (ceilDiv (totalRecords st1) (pageSize st1))
         in st1\<lparr>currentPage := min (currentPage st1) maxPage\<rparr>))"

subsection \<open>Sorting\<close>

text \<open>
  \<open>a < b\<close> on two strings compares code units lexicographically; on two numbers it is
  the order of the numbers; on two booleans \<open>false < true\<close>; two plain objects both
  render as \<open>[object Object]\<close> and neither is less. For every other pair of operands
  the engine converts both to numbers; that conversion is not modelled and is the
  parameter \<open>mixed\<close>.
\<close>

fun strLess :: "string \<Rightarrow> string \<Rightarrow> bool" where
  "strLess [] [] = False"
| "strLess [] (y # ys) = True"
| "strLess (x # xs) [] = False"
| "strLess (x # xs) (y # ys) =
     (if code x < code y then True
      else if code y < code x then False
      else strLess xs ys)"













subsection \<open>Loading and deleting\<close>

text \<open>\<open>buildTableColumns\<close>: one column per raw column, then the row-action column.\<close>

definition buildColumn :: "rawColumn \<Rightarrow> colDef" where
  "buildColumn col =
     (if col_isLink col then ButtonCol (col_label col) (col_fieldName col) (col_sortable col)
      else
        (let colType = toLowerCase (orElse (col_type col) ''text'') in
         if colType = ''picklist''
         then PicklistCol (col_label col) (col_fieldName col) (col_options col) (col_sortable col)
         else FieldCol (col_label col) (col_fieldName col) colType (col_sortable col)))"

definition buildTableColumns :: "rawColumn list \<Rightarrow> colDef list" where
  "buildTableColumns cols = map buildColumn cols @ [ActionCol]"

text \<open>
  \<open>loadRecords\<close> starts the call; \<open>loadRecords_then\<close> and \<open>loadRecords_catch\<close> are the
  two callbacks of its promise.
\<close>

definition loadRecords :: "viewer \<Rightarrow> viewer \<times> call option" where
  "loadRecords st =
     (if objectApiName st = [] then (st\<lparr>errorMessage := ''SObject API name is required.''\<rparr>, None)
      else
        (st\<lparr>isLoading := True, errorMessage := [], hasSearched := True\<rparr>,
         Some (GetRecords (objectApiName st) FETCH_LIMIT
                 (if searchTerm st \<noteq> [] then Some (searchTerm st) else None))))"

definition loadRecords_then :: "viewer \<Rightarrow> response \<Rightarrow> viewer" where
  "loadRecords_then st resp =
     (let st1 = st\<lparr>isLoading := False\<rparr> in
      if success resp
      then st1\<lparr>tableData := (case records resp of None \<Rightarrow> [] | Some rs \<Rightarrow> rs),
               tableColumns := buildTableColumns (case columns resp of None \<Rightarrow> [] | Some cs \<Rightarrow> cs),
               currentPage := 1, sortedBy := [], sortedDirection := ''asc''\<rparr>
      else st1\<lparr>errorMessage := orElse (respErrorMessage resp) ''An error occurred.'',
               tableData := [], tableColumns := [],
               sortedBy := [], sortedDirection := ''asc''\<rparr>)"

definition loadRecords_catch :: "viewer \<Rightarrow> jsError \<Rightarrow> viewer" where
  "loadRecords_catch st err =
     st\<lparr>isLoading := False,
        errorMessage := errorText err ''Failed to load records.'',
        tableData := [], tableColumns := [],
        sortedBy := [], sortedDirection := ''asc''\<rparr>"

text \<open>
  \<open>handleDelete\<close>: \<open>confirmed\<close> is what the user answers to \<open>confirm(...)\<close>. A successful
  deletion reloads the records.
\<close>

definition handleDelete :: "viewer \<Rightarrow> string \<Rightarrow> bool \<Rightarrow> viewer \<times> call option" where
  "handleDelete st recordId confirmed =
     (if objectApiName st = [] \<or> recordId = []
      then (st\<lparr>errorMessage := ''Object type and record Id are required.''\<rparr>, None)
      else if \<not> confirmed then (st, None)
      else (st\<lparr>isLoading := True, errorMessage := []\<rparr>,
            Some (DeleteRecord (objectApiName st) recordId)))"

definition handleDelete_then :: "viewer \<Rightarrow> response \<Rightarrow> viewer \<times> call option" where
  "handleDelete_then st resp =
     (let st1 = st\<lparr>isLoading := False\<rparr> in
      if success resp then loadRecords st1
      else (st1\<lparr>errorMessage := orElse (respErrorMessage resp) ''Failed to delete.''\<rparr>, None))"

definition handleDelete_catch :: "viewer \<Rightarrow> jsError \<Rightarrow> viewer" where
  "handleDelete_catch st err =
     st\<lparr>isLoading := False, errorMessage := errorText err ''Failed to delete.''\<rparr>"

text \<open>A viewer showing \<open>rows\<close> on page \<open>page\<close> with page size \<open>psize\<close>.\<close>

definition viewerWith :: "obj list \<Rightarrow> int \<Rightarrow> int \<Rightarrow> viewer" where
  "viewerWith rows page psize =
     \<lparr> objectApiName = ''Account'', errorMessage = [],
       tableData = rows, tableColumns = [ActionCol], isLoading = False, hasSearched = True,
       currentPage = page, pageSize = psize, sortedBy = [], sortedDirection = ''asc'',
       searchTerm = [] \<rparr>"


section \<open>Dates\<close>

text \<open>
  A \<open>Date\<close> that is not \<open>Invalid Date\<close> is its time value: milliseconds since the epoch,
  an integer. \<open>toISOString\<close> renders the time value in UTC as
  \<open>YYYY-MM-DDTHH:mm:ss.sssZ\<close>; years outside 0 to 9999 are written with a sign and six
  digits. The calendar date of a day number follows the proleptic Gregorian calendar.
\<close>

definition msPerDay :: int where
  "msPerDay = 86400000"

definition civilFromDays :: "int \<Rightarrow> int \<times> int \<times> int" where
  "civilFromDays days =
     (let z = days + 719468;
          era = z div 146097;
          doe = z - era * 146097;
          yoe = (doe - doe div 1460 + doe div 36524 - doe div 146096) div 365;
          y = yoe + era * 400;
          doy = doe - (365 * yoe + yoe div 4 - yoe div 100);
          mp = (5 * doy + 2) div 153;
          d = doy - (153 * mp + 2) div 5 + 1;
          m = (if mp < 10 then mp + 3 else mp - 9)
      in (if m \<le> 2 then y + 1 else y, m, d))"

definition daysFromCivil :: "int \<Rightarrow> int \<Rightarrow> int \<Rightarrow> int" where
  "daysFromCivil y0 m d =
     (let y = (if m \<le> 2 then y0 - 1 else y0);
          era = y div 400;
          yoe = y - era * 400;
          doy = (153 * (if m > 2 then m - 3 else m + 9) + 2) div 5 + d - 1;
          doe = yoe * 365 + yoe div 4 - yoe div 100 + doy
      in era * 146097 + doe - 719468)"

text \<open>Fixed-width decimal fields: the last \<open>w\<close> digits of a number that is not negative.\<close>

fun padDigits :: "nat \<Rightarrow> nat \<Rightarrow> string" where
  "padDigits 0 n = []"
| "padDigits (Suc w) n = padDigits w (n div 10) @ [digitChar n]"

definition yearString :: "int \<Rightarrow> string" where
  "yearString y =
     (if 0 \<le> y \<and> y \<le> 9999 then padDigits 4 (nat y)
      else (if y < 0 then CHR ''-'' else CHR ''+'') # padDigits 6 (nat \<bar>y\<bar>))"

definition isoDatePart :: "int \<Rightarrow> string" where
  "isoDatePart days =
     (case civilFromDays days of
        (y, m, d) \<Rightarrow> yearString y @ ''-'' @ padDigits 2 (nat m) @ ''-'' @ padDigits 2 (nat d))"

definition isoTimePart :: "int \<Rightarrow> string" where
  "isoTimePart ms =
     padDigits 2 (nat (ms div 3600000)) @ '':'' @
     padDigits 2 (nat (ms div 60000 mod 60)) @ '':'' @
     padDigits 2 (nat (ms div 1000 mod 60)) @ ''.'' @
     padDigits 3 (nat (ms mod 1000))"

definition toISOString :: "int \<Rightarrow> string" where
  "toISOString t =
     isoDatePart (t div msPerDay) @ ''T'' @ isoTimePart (t mod msPerDay) @ ''Z''"

text \<open>
  \<open>new Date(s)\<close> parses a string. Beyond the ISO format the accepted strings, and the
  time zone of a time without an offset, are the engine's own, so the parser is a
  parameter \<open>parse\<close> of everything that normalises values: \<open>parse s\<close> is the time value,
  or \<open>None\<close> for \<open>Invalid Date\<close>. \<open>isoParse\<close> is one such parser, reading the two UTC
  forms \<open>YYYY-MM-DD\<close> and \<open>YYYY-MM-DDTHH:mm:ss.sssZ\<close> and nothing else.
\<close>

definition twoDigits :: "string \<Rightarrow> int option" where
  "twoDigits s = (if length s = 2 \<and> list_all isDigit s then Some (digitsValue s) else None)"

definition isoParseDate :: "string \<Rightarrow> int option" where
  "isoParseDate s =
     (if length s = 10 \<and> list_all isDigit (take 4 s) \<and> s ! 4 = CHR ''-'' \<and> s ! 7 = CHR ''-''
      then (case (twoDigits (take 2 (drop 5 s)), twoDigits (drop 8 s)) of
              (Some m, Some d) \<Rightarrow>
                if 1 \<le> m \<and> m \<le> 12 \<and> 1 \<le> d \<and> d \<le> 31
                then Some (daysFromCivil (digitsValue (take 4 s)) m d) else None
            | _ \<Rightarrow> None)
      else None)"

definition isoParseTime :: "string \<Rightarrow> int option" where
  "isoParseTime s =
     (if length s = 14 \<and> s ! 0 = CHR ''T'' \<and> s ! 3 = CHR '':'' \<and> s ! 6 = CHR '':'' \<and>
         s ! 9 = CHR ''.'' \<and> list_all isDigit (take 3 (drop 10 s)) \<and> s ! 13 = CHR ''Z''
      then (case (twoDigits (take 2 (drop 1 s)), twoDigits (take 2 (drop 4 s)),
                  twoDigits (take 2 (drop 7 s))) of
              (Some h, Some mi, Some sec) \<Rightarrow>
                if h \<le> 23 \<and> mi \<le> 59 \<and> sec \<le> 59
                then Some (h * 3600000 + mi * 60000 + sec * 1000 +
                           digitsValue (take 3 (drop 10 s)))
                else None
            | _ \<Rightarrow> None)
      else None)"

definition isoParse :: "string \<Rightarrow> int option" where
  "isoParse s =
     (case isoParseDate (take 10 s) of
        None \<Rightarrow> None
      | Some days \<Rightarrow>
          if length s = 10 then Some (days * msPerDay)
          else (case isoParseTime (drop 10 s) of
                  None \<Rightarrow> None
                | Some ms \<Rightarrow> Some (days * msPerDay + ms)))"

section \<open>The record modal\<close>

subsection \<open>Change detection\<close>

text \<open>
  \<open>typeof val === 'object' && val.hasOwnProperty?.('value')\<close> recognises a wrapper
  object, and \<open>val.value\<close> reads what it wraps.
\<close>

definition hasOwnProperty :: "obj \<Rightarrow> string \<Rightarrow> bool" where
  "hasOwnProperty ob k = (map_of ob k \<noteq> None)"

definition isWrapper :: "jsval \<Rightarrow> bool" where
  "isWrapper val = (case val of JObj ps \<Rightarrow> hasOwnProperty ps ''value'' | _ \<Rightarrow> False)"

definition wrappedValue :: "jsval \<Rightarrow> jsval" where
  "wrappedValue val = (case val of JObj ps \<Rightarrow> getProp ps ''value'' | _ \<Rightarrow> JUndefined)"

lemma size_getProp:
  "hasOwnProperty ps k \<Longrightarrow> size (getProp ps k) < size (JObj ps)"
proof (induction ps)
  case Nil
  then show ?case by (simp add: hasOwnProperty_def)
next
  case (Cons p ps)
  obtain k' v' where p: "p = (k', v')" by (cases p)
  show ?case
  proof (cases "k' = k")
    case True
    then show ?thesis using p by (simp add: getProp_def)
  next
    case False
    then have "hasOwnProperty ps k" using Cons.prems p by (simp add: hasOwnProperty_def)
    then have "size (getProp ps k) < size (JObj ps)" by (rule Cons.IH)
    then show ?thesis using False p by (simp add: getProp_def)
  qed
qed

lemma size_wrappedValue: "isWrapper val \<Longrightarrow> size (wrappedValue val) < size val"
proof (cases val)
  case (JObj ps)
  assume "isWrapper val"
  then have "hasOwnProperty ps ''value''" using JObj by (simp add: isWrapper_def)
  then have "size (getProp ps ''value'') < size (JObj ps)" by (rule size_getProp)
  then show ?thesis unfolding JObj wrappedValue_def by (simp only: jsval.case)
qed (simp_all add: isWrapper_def)

function normalizedValue :: "(string \<Rightarrow> int option) \<Rightarrow> jsval \<Rightarrow> string" where
  "normalizedValue parse val =
     (if isNullish val then []
      else if isWrapper val then normalizedValue parse (wrappedValue val)
      else
        (let s = trim (toStr val) in
         if s = [] then []
         else (case parse s of
                 Some t \<Rightarrow> take 10 (toISOString t)
               | None \<Rightarrow> s)))"
  by pat_completeness auto
termination
  by (relation "measure (\<lambda>(parse, val). size val)") (auto simp: size_wrappedValue)

declare normalizedValue.simps [simp del]

subsection \<open>State of the modal and of its template\<close>

text \<open>
  The modal's public properties and tracked fields. \<open>recordProp\<close> is the \<open>record\<close>
  property (the viewer always passes an object, \<open>record || {}\<close>); the maps keyed by field
  name are lists of pairs. A lookup option is a pair of value and label.
\<close>

record modal = component +
  recordProp :: obj
  editFields :: "fieldDef list"
  lookupLabels :: "(string \<times> string) list"
  recordData :: obj
  saveLoading :: bool
  externalLookupOptionsMap :: "(string \<times> (string \<times> string) list) list"
  externalLookupSearchTerm :: "(string \<times> string) list"
  externalLookupDisplayMap :: "(string \<times> string) list"
  externalLookupDropdownOpen :: "(string \<times> bool) list"
  externalSearchTimeouts :: "(string \<times> nat) list"
  initialRecordValues :: obj

text \<open>
  The rendered template, as far as \<open>handleSave\<close> touches it: every \<open>lightning-input\<close>
  with its \<open>data-field\<close> attribute, its custom validity message and whether its built-in
  constraints hold, and for every \<open>lightning-combobox\<close> whether it is valid.
  \<open>reportValidity\<close> is false when a custom message is set or a built-in constraint
  fails.
\<close>

record inputEl =
  dataField :: "string option"
  customValidity :: string
  builtinValid :: bool

record template =
  inputs :: "inputEl list"
  comboboxes :: "bool list"

definition reportValidity :: "inputEl \<Rightarrow> bool" where
  "reportValidity el = (builtinValid el \<and> customValidity el = [])"

text \<open>\<open>template.querySelector('lightning-input[data-field="fn"]')\<close>: the first match.\<close>

definition querySelector :: "template \<Rightarrow> string \<Rightarrow> inputEl option" where
  "querySelector tpl fn = find (\<lambda>el. dataField el = Some fn) (inputs tpl)"

text \<open>The template has a \<open>lightning-input\<close> bound to the field \<open>fn\<close>.\<close>

definition hasInput :: "template \<Rightarrow> string \<Rightarrow> bool" where
  "hasInput tpl fn = list_ex (\<lambda>el. dataField el = Some fn) (inputs tpl)"

text \<open>\<open>input.setCustomValidity(msg)\<close> on the first input bound to \<open>fn\<close>, if there is one.\<close>

fun setFirst :: "string \<Rightarrow> string \<Rightarrow> inputEl list \<Rightarrow> inputEl list" where
  "setFirst fn msg [] = []"
| "setFirst fn msg (el # els) =
     (if dataField el = Some fn then el\<lparr>customValidity := msg\<rparr> # els
      else el # setFirst fn msg els)"

definition setCustomValidity :: "template \<Rightarrow> string \<Rightarrow> string \<Rightarrow> template" where
  "setCustomValidity tpl fn msg = tpl\<lparr>inputs := setFirst fn msg (inputs tpl)\<rparr>"

subsection \<open>Opening the modal\<close>

text \<open>\<open>{ ...a, ...b }\<close> on maps kept as lists of pairs.\<close>

definition spread :: "('k \<times> 'v) list \<Rightarrow> ('k \<times> 'v) list \<Rightarrow> ('k \<times> 'v) list" where
  "spread a b = foldl (\<lambda>acc (k, v). AList.update k v acc) a b"

definition connectedCallback :: "modal \<Rightarrow> modal" where
  "connectedCallback st =
     st\<lparr>recordData := recordProp st,
        externalLookupDisplayMap :=
          (if lookupLabels st \<noteq> [] then spread (externalLookupDisplayMap st) (lookupLabels st)
           else externalLookupDisplayMap st),
        initialRecordValues := recordProp st\<rparr>"

definition isEditMode :: "modal \<Rightarrow> bool" where
  "isEditMode st = truthy (getProp (recordProp st) ''Id'')"

subsection \<open>Field handlers\<close>

definition handleFieldChange :: "modal \<Rightarrow> string \<Rightarrow> jsval \<Rightarrow> modal" where
  "handleFieldChange st fld v = st\<lparr>recordData := setProp (recordData st) fld v\<rparr>"

definition handleExternalLookupSelect :: "modal \<Rightarrow> template \<Rightarrow> string \<Rightarrow> string \<Rightarrow> string
    \<Rightarrow> modal \<times> template" where
  "handleExternalLookupSelect st tpl fld v lbl =
     (st\<lparr>recordData := setProp (recordData st) fld (JStr v),
         externalLookupDisplayMap :=
           AList.update fld (if lbl \<noteq> [] then lbl else v) (externalLookupDisplayMap st),
         externalLookupSearchTerm := AList.update fld [] (externalLookupSearchTerm st),
         externalLookupDropdownOpen := AList.update fld False (externalLookupDropdownOpen st),
         externalLookupOptionsMap := AList.update fld [] (externalLookupOptionsMap st)\<rparr>,
      setCustomValidity tpl fld [])"

definition handleExternalLookupClear :: "modal \<Rightarrow> string \<Rightarrow> modal" where
  "handleExternalLookupClear st fld =
     st\<lparr>recordData := setProp (recordData st) fld (JStr []),
        externalLookupDisplayMap := AList.update fld [] (externalLookupDisplayMap st),
        externalLookupSearchTerm := AList.update fld [] (externalLookupSearchTerm st),
        externalLookupDropdownOpen := AList.update fld False (externalLookupDropdownOpen st),
        externalLookupOptionsMap := AList.update fld [] (externalLookupOptionsMap st)\<rparr>"

subsection \<open>Saving\<close>

definition externalLookup :: "fieldDef \<Rightarrow> bool" where
  "externalLookup f = (isExternalLookup f \<or> IsExternalLookup f)"

text \<open>The custom validity of every external lookup input is cleared first.\<close>

definition clearLookupValidity :: "fieldDef list \<Rightarrow> template \<Rightarrow> template" where
  "clearLookupValidity flds tpl =
     foldl (\<lambda>t f. setCustomValidity t (fieldKey f) []) tpl (filter externalLookup flds)"

text \<open>
  A required external lookup field whose working value is falsy gets the message
  \<open>This field is required.\<close> on its input, if the template has one, and the input is
  asked to report its validity.
\<close>

definition requireLookup :: "obj \<Rightarrow> template \<times> bool \<Rightarrow> fieldDef \<Rightarrow> template \<times> bool" where
  "requireLookup rd acc f =
     (case acc of (tpl, allValid) \<Rightarrow>
        (let fn = fieldKey f in
         if \<not> truthy (getProp rd fn)
         then (case querySelector tpl fn of
                 None \<Rightarrow> (tpl, allValid)
               | Some input \<Rightarrow>
                   (let input' = input\<lparr>customValidity := ''This field is required.''\<rparr>
                    in (setCustomValidity tpl fn ''This field is required.'',
                        if \<not> reportValidity input' then False else allValid)))
         else (tpl, allValid)))"

definition requireLookups :: "obj \<Rightarrow> fieldDef list \<Rightarrow> template \<times> bool \<Rightarrow> template \<times> bool" where
  "requireLookups rd flds acc =
     foldl (requireLookup rd) acc (filter (\<lambda>f. externalLookup f \<and> required f) flds)"

text \<open>
  The loop over the fields that checks email and phone formats stops at the first
  failure; its result is that failure's message.
\<close>

fun validateFormats :: "obj \<Rightarrow> fieldDef list \<Rightarrow> string option" where
  "validateFormats rd [] = None"
| "validateFormats rd (f # fs) =
     (let fn = fieldKey f;
          rawType = toLowerCase (orElse (ftype f) ''text'');
          val = getProp rd fn
      in if isNullish val \<or> trim (toStr val) = [] then validateFormats rd fs
         else
           (let strVal = trim (toStr val) in
            if rawType = ''email'' \<and> \<not> isValidEmail (JStr strVal)
            then Some (''Invalid email format for '' @ orElse (label f) fn @ ''.'')
            else if rawType = ''phone'' \<and> \<not> isValidPhone (JStr strVal)
            then Some (''Invalid phone format for '' @ orElse (label f) fn @ ''.'')
            else validateFormats rd fs))"

text \<open>
  Everything \<open>handleSave\<close> checks before it builds the payload: the template as the
  checks leave it, and the message of the rejection if there is one.
\<close>

definition validate :: "modal \<Rightarrow> template \<Rightarrow> template \<times> string option" where
  "validate st tpl =
     (if objectApiName st = [] \<or> trim (objectApiName st) = []
      then (tpl, Some ''Object type is required.'')
      else if isEditMode st \<and>
              (\<not> truthy (getProp (recordProp st) ''Id'') \<or>
               trim (toStr (getProp (recordProp st) ''Id'')) = [])
      then (tpl, Some ''Record Id is required to update.'')
      else
        (let tpl1 = clearLookupValidity (editFields st) tpl;
             allValid1 = list_all reportValidity (inputs tpl1);
             allValid2 = (allValid1 \<and> list_all (\<lambda>b. b) (comboboxes tpl1))
         in case requireLookups (recordData st) (editFields st) (tpl1, allValid2) of
              (tpl2, allValid3) \<Rightarrow>
                (case validateFormats (recordData st) (editFields st) of
                   Some msg \<Rightarrow>
                     (tpl2, Some (if msg \<noteq> [] then msg
                                  else ''Please fix validation errors before saving.''))
                 | None \<Rightarrow>
                     if \<not> allValid3
                     then (tpl2, Some ''Please fix validation errors before saving.'')
                     else (tpl2, None))))"

text \<open>
  The payload: in edit mode the fields whose normalised working value differs from the
  normalised initial value, otherwise the fields whose working value is neither
  \<open>undefined\<close> nor \<open>null\<close> nor the empty string.
\<close>

definition payloadStep ::
  "(string \<Rightarrow> int option) \<Rightarrow> bool \<Rightarrow> obj \<Rightarrow> obj \<Rightarrow> obj \<Rightarrow> fieldDef \<Rightarrow> obj" where
  "payloadStep parse edit rd init payload f =
     (let fn = fieldKey f;
          currentVal = getProp rd fn
      in if edit
         then (let initialVal = getProp init fn in
               if normalizedValue parse currentVal \<noteq> normalizedValue parse initialVal
               then setProp payload fn (if \<not> isNullish currentVal then currentVal else JStr [])
               else payload)
         else (if \<not> isNullish currentVal \<and> currentVal \<noteq> JStr []
               then setProp payload fn currentVal
               else payload))"

definition buildPayload ::
  "(string \<Rightarrow> int option) \<Rightarrow> bool \<Rightarrow> obj \<Rightarrow> obj \<Rightarrow> fieldDef list \<Rightarrow> obj" where
  "buildPayload parse edit rd init flds = foldl (payloadStep parse edit rd init) [] flds"

definition handleSave ::
  "(string \<Rightarrow> int option) \<Rightarrow> modal \<Rightarrow> template \<Rightarrow> modal \<times> template \<times> call option" where
  "handleSave parse st0 tpl =
     (let st = st0\<lparr>errorMessage := []\<rparr> in
      case validate st tpl of
        (tpl', Some msg) \<Rightarrow> (st\<lparr>errorMessage := msg\<rparr>, tpl', None)
      | (tpl', None) \<Rightarrow>
          (let payload = buildPayload parse (isEditMode st) (recordData st)
                           (initialRecordValues st) (editFields st)
           in if isEditMode st \<and> payload = []
              then (st\<lparr>errorMessage := ''No fields were changed.''\<rparr>, tpl', None)
              else
                (let st2 = st\<lparr>saveLoading := True, errorMessage := []\<rparr> in
                 if isEditMode st
                 then (st2, tpl',
                       Some (UpdateRecord (objectApiName st) (getProp (recordProp st) ''Id'')
                               payload))
                 else (st2, tpl', Some (CreateRecord (objectApiName st) payload)))))"

text \<open>
  The callbacks of the save promise. \<open>handleSaveResponse\<close> also says whether the modal
  closes with \<open>saved: true\<close>.
\<close>

definition handleSaveResponse :: "modal \<Rightarrow> response \<Rightarrow> string \<Rightarrow> modal \<times> bool" where
  "handleSaveResponse st resp failMessage =
     (let st1 = st\<lparr>saveLoading := False\<rparr> in
      if success resp then (st1, True)
      else (st1\<lparr>errorMessage := orElse (respErrorMessage resp) failMessage\<rparr>, False))"

definition handleSave_catch :: "modal \<Rightarrow> jsError \<Rightarrow> string \<Rightarrow> modal" where
  "handleSave_catch st err failMessage =
     st\<lparr>saveLoading := False, errorMessage := errorText err failMessage\<rparr>"

subsection \<open>Search as you type\<close>

text \<open>
  The modal together with what the event loop holds for it: the timers that are
  pending, each with the field and the search term its callback closes over, and the
  searches that were sent and have not been answered. Timer identifiers are positive.
\<close>

record world =
  modalOf :: modal
  timers :: "(nat \<times> string \<times> string) list"
  nextTimerId :: nat
  inflight :: "(nat \<times> string \<times> call) list"
  nextQueryId :: nat

definition EXTERNAL_LOOKUP_MAX_RESULTS :: nat where
  "EXTERNAL_LOOKUP_MAX_RESULTS = 50"

definition clearTimeout :: "nat \<Rightarrow> (nat \<times> string \<times> string) list \<Rightarrow> (nat \<times> string \<times> string) list" where
  "clearTimeout tid ts = filter (\<lambda>t. fst t \<noteq> tid) ts"

definition handleExternalLookupInput :: "world \<Rightarrow> string \<Rightarrow> string \<Rightarrow> world" where
  "handleExternalLookupInput w fld v =
     (let st = modalOf w;
          srch = trim v;
          st1 = st\<lparr>externalLookupSearchTerm := AList.update fld v (externalLookupSearchTerm st),
                   recordData := setProp (recordData st) fld (JStr []),
                   externalLookupDisplayMap := AList.update fld [] (externalLookupDisplayMap st),
                   externalLookupDropdownOpen :=
                     AList.update fld True (externalLookupDropdownOpen st)\<rparr>;
          pending = (case map_of (externalSearchTimeouts st) fld of
                       None \<Rightarrow> timers w
                     | Some tid \<Rightarrow> if tid \<noteq> 0 then clearTimeout tid (timers w) else timers w);
          tid = nextTimerId w
      in w\<lparr>modalOf := st1\<lparr>externalSearchTimeouts :=
                          AList.update fld tid (externalSearchTimeouts st1)\<rparr>,
           timers := pending @ [(tid, fld, srch)],
           nextTimerId := tid + 1\<rparr>)"

text \<open>\<open>(f.fieldName || f.FieldName) === fieldName\<close>\<close>

definition rawKey :: "fieldDef \<Rightarrow> string option" where
  "rawKey f =
     (case fieldName f of
        Some s \<Rightarrow> if s \<noteq> [] then Some s else FieldName f
      | None \<Rightarrow> FieldName f)"

text \<open>The callback of the debounce timer \<open>tid\<close>, when it is still pending.\<close>

definition timerFired :: "world \<Rightarrow> nat \<Rightarrow> world" where
  "timerFired w tid =
     (case find (\<lambda>t. fst t = tid) (timers w) of
        None \<Rightarrow> w
      | Some (_, fld, srch) \<Rightarrow>
          (let w1 = w\<lparr>timers := clearTimeout tid (timers w)\<rparr>;
               st = modalOf w1;
               fieldDef = find (\<lambda>f. rawKey f = Some fld) (editFields st);
               target = getLookupObjectForField fieldDef
           in if target = []
              then w1\<lparr>modalOf := st\<lparr>externalLookupOptionsMap :=
                                    AList.update fld [] (externalLookupOptionsMap st)\<rparr>\<rparr>
              else w1\<lparr>inflight := inflight w1 @
                         [(nextQueryId w1, fld,
                           SearchExternalRecords target srch EXTERNAL_LOOKUP_MAX_RESULTS)],
                      nextQueryId := nextQueryId w1 + 1\<rparr>))"

text \<open>
  The answer to the search \<open>qid\<close> arrives (\<open>options || []\<close> is stored), or the search
  fails (nothing is stored).
\<close>

definition searchResolved :: "world \<Rightarrow> nat \<Rightarrow> (string \<times> string) list option \<Rightarrow> world" where
  "searchResolved w qid options =
     (case find (\<lambda>q. fst q = qid) (inflight w) of
        None \<Rightarrow> w
      | Some (_, fld, _) \<Rightarrow>
          (let st = modalOf w in
           w\<lparr>inflight := filter (\<lambda>q. fst q \<noteq> qid) (inflight w),
             modalOf := st\<lparr>externalLookupOptionsMap :=
                          AList.update fld (case options of None \<Rightarrow> [] | Some os \<Rightarrow> os)
                            (externalLookupOptionsMap st)\<rparr>\<rparr>))"

definition searchRejected :: "world \<Rightarrow> nat \<Rightarrow> world" where
  "searchRejected w qid = w\<lparr>inflight := filter (\<lambda>q. fst q \<noteq> qid) (inflight w)\<rparr>"

text \<open>
  The pending timers of a field; the keystrokes \<open>vs\<close> typed one after the other in the
  input of a field with no timer firing in between (within the debounce window); and
  the bookkeeping that the handlers maintain: every pending timer is the one recorded
  for its field in \<open>_externalSearchTimeouts\<close>, and identifiers are positive and below
  the next one.
\<close>

definition timersFor :: "world \<Rightarrow> string \<Rightarrow> (nat \<times> string \<times> string) list" where
  "timersFor w fld = filter (\<lambda>t. fst (snd t) = fld) (timers w)"

definition typeKeys :: "world \<Rightarrow> string \<Rightarrow> string list \<Rightarrow> world" where
  "typeKeys w fld vs = foldl (\<lambda>w' v. handleExternalLookupInput w' fld v) w vs"

definition timersRecorded :: "world \<Rightarrow> bool" where
  "timersRecorded w =
     (0 < nextTimerId w \<and>
      list_all (\<lambda>t. map_of (externalSearchTimeouts (modalOf w)) (fst (snd t)) = Some (fst t) \<and>
                    0 < fst t \<and> fst t < nextTimerId w) (timers w))"

subsection \<open>Sample states\<close>

text \<open>A modal as it is created for a record, an object type and a list of fields.\<close>

definition newModal :: "obj \<Rightarrow> string \<Rightarrow> fieldDef list \<Rightarrow> modal" where
  "newModal rec objType flds =
     \<lparr> objectApiName = objType, errorMessage = [],
       recordProp = rec, editFields = flds, lookupLabels = [],
       recordData = [], saveLoading = False,
       externalLookupOptionsMap = [], externalLookupSearchTerm = [],
       externalLookupDisplayMap = [], externalLookupDropdownOpen = [],
       externalSearchTimeouts = [], initialRecordValues = [] \<rparr>"

definition newWorld :: "modal \<Rightarrow> world" where
  "newWorld st = \<lparr> modalOf = st, timers = [], nextTimerId = 1, inflight = [], nextQueryId = 1 \<rparr>"

text \<open>A field of a given type, and an external lookup field.\<close>

definition typedField :: "string \<Rightarrow> string \<Rightarrow> fieldDef" where
  "typedField n ty = (plainField n)\<lparr>ftype := Some ty\<rparr>"

definition lookupField :: "string \<Rightarrow> bool \<Rightarrow> fieldDef" where
  "lookupField n req = (plainField n)\<lparr>isExternalLookup := True, required := req\<rparr>"

text \<open>A valid input bound to a field.\<close>

definition inputFor :: "string \<Rightarrow> inputEl" where
  "inputFor n = \<lparr> dataField = Some n, customValidity = [], builtinValid = True \<rparr>"


section \<open>Properties of validation and lookup resolution\<close>

lemma rxTest_Cons_iff:
  "rxTest (r # rs) s \<longleftrightarrow> (\<exists>a b. s = a @ b \<and> rxPiece r a \<and> rxTest rs b)"
proof
  assume "rxTest (r # rs) s"
  then obtain i where "rxPiece r (take i s)" "rxTest rs (drop i s)"
    unfolding rxTest.simps list_ex_iff by blast
  moreover have "s = take i s @ drop i s" by simp
  ultimately show "\<exists>a b. s = a @ b \<and> rxPiece r a \<and> rxTest rs b" by blast
next
  assume "\<exists>a b. s = a @ b \<and> rxPiece r a \<and> rxTest rs b"
  then obtain a b where ab: "s = a @ b" "rxPiece r a" "rxTest rs b" by blast
  have "length a \<in> set [0 ..< Suc (length s)]" using ab(1) by simp
  moreover have "rxPiece r (take (length a) s) \<and> rxTest rs (drop (length a) s)"
    using ab by simp
  ultimately show "rxTest (r # rs) s"
    unfolding rxTest.simps list_ex_iff by blast
qed

lemma at_not_in_classes:
  "\<not> localChar CHR ''@''" "\<not> domainChar CHR ''@''" "\<not> isAlpha CHR ''@''"
  by (simp_all add: localChar_def domainChar_def isAlpha_def isUpper_def isLower_def
      isDigit_def code_def)

lemma count_list_class_zero:
  "list_all p xs \<Longrightarrow> \<not> p c \<Longrightarrow> count_list xs c = 0"
  by (induction xs) auto

lemma EMAIL_REGEX_shape:
  "rxTest EMAIL_REGEX t \<longleftrightarrow>
     (\<exists>loc host tld.
        t = loc @ ''@'' @ host @ ''.'' @ tld \<and>
        loc \<noteq> [] \<and> list_all localChar loc \<and>
        host \<noteq> [] \<and> list_all domainChar host \<and>
        2 \<le> length tld \<and> list_all isAlpha tld)"
  unfolding EMAIL_REGEX_def rxTest_Cons_iff
  by (simp add: Suc_le_eq) blast

lemma EMAIL_REGEX_one_at:
  assumes "t = loc @ ''@'' @ host @ ''.'' @ tld"
    and "list_all localChar loc" "list_all domainChar host" "list_all isAlpha tld"
  shows "count_list t CHR ''@'' = 1"
proof -
  have "count_list loc CHR ''@'' = 0"
    using assms(2) at_not_in_classes(1) by (rule count_list_class_zero)
  moreover have "count_list host CHR ''@'' = 0"
    using assms(3) at_not_in_classes(2) by (rule count_list_class_zero)
  moreover have "count_list tld CHR ''@'' = 0"
    using assms(4) at_not_in_classes(3) by (rule count_list_class_zero)
  ultimately show ?thesis
    using assms(1) by simp
qed

lemma EMAIL_REGEX_spec: "rxTest EMAIL_REGEX t \<longleftrightarrow> emailPattern_spec t"
  unfolding EMAIL_REGEX_shape emailPattern_spec_def
  using EMAIL_REGEX_one_at by blast

lemma lastIndexOf_absent: "c \<notin> set s \<Longrightarrow> lastIndexOf s c = -1"
  by (induction s) (auto simp: Let_def)

lemma lastIndexOf_present: "c \<in> set s \<Longrightarrow> 0 \<le> lastIndexOf s c"
  by (induction s) (auto simp: Let_def)

lemma drop_lastIndexOf:
  "drop (nat (lastIndexOf s c + 1)) s = rev (takeWhile (\<lambda>x. x \<noteq> c) (rev s))"
proof (induction s)
  case Nil
  show ?case by simp
next
  case (Cons x xs)
  show ?case
  proof (cases "c \<in> set xs")
    case True
    then have r: "0 \<le> lastIndexOf xs c" by (rule lastIndexOf_present)
    have "c \<in> set (rev xs)" using True by simp
    then have "takeWhile (\<lambda>x. x \<noteq> c) (rev xs @ [x]) = takeWhile (\<lambda>x. x \<noteq> c) (rev xs)"
      by (simp add: takeWhile_append1)
    moreover have "nat (lastIndexOf xs c + 1 + 1) = Suc (nat (lastIndexOf xs c + 1))"
      using r by simp
    ultimately show ?thesis using r Cons.IH by (simp add: Let_def)
  next
    case False
    then have r: "lastIndexOf xs c = -1" by (rule lastIndexOf_absent)
    have tw: "takeWhile (\<lambda>x. x \<noteq> c) (rev xs @ [x]) = rev xs @ takeWhile (\<lambda>x. x \<noteq> c) [x]"
      using False by (intro takeWhile_append2) auto
    show ?thesis
    proof (cases "x = c")
      case True
      then have a: "rev (takeWhile (\<lambda>x. x \<noteq> c) (rev (x # xs))) = xs"
        using tw by simp
      have b: "drop (nat (lastIndexOf (x # xs) c + 1)) (x # xs) = xs"
        using r True by (simp add: Let_def)
      show ?thesis by (simp only: a b)
    next
      case False
      then have a: "rev (takeWhile (\<lambda>x. x \<noteq> c) (rev (x # xs))) = x # xs"
        using tw by simp
      have b: "drop (nat (lastIndexOf (x # xs) c + 1)) (x # xs) = x # xs"
        using r False by (simp add: Let_def)
      show ?thesis by (simp only: a b)
    qed
  qed
qed

lemma dropWhile_rev_dropWhile:
  "dropWhile P (rev (dropWhile P (rev (dropWhile P s)))) = rev (dropWhile P (rev (dropWhile P s)))"
proof (cases "rev (dropWhile P (rev (dropWhile P s)))")
  case Nil
  show ?thesis unfolding Nil by simp
next
  case (Cons y ys)
  let ?a = "dropWhile P s"
  have "?a \<noteq> []"
  proof
    assume e: "?a = []"
    have "rev (dropWhile P (rev ?a)) = []" unfolding e by simp
    with Cons show False by simp
  qed
  then have na: "\<not> P (hd ?a)" by (rule hd_dropWhile)
  have "rev ?a = takeWhile P (rev ?a) @ dropWhile P (rev ?a)" by simp
  then have "?a = rev (dropWhile P (rev ?a)) @ rev (takeWhile P (rev ?a))"
    by (metis rev_append rev_rev_ident)
  then have "hd ?a = y" using Cons by (metis append_Cons list.sel(1))
  then show ?thesis using na Cons by simp
qed

lemma trim_idem: "trim (trim s) = trim s"
proof -
  let ?b = "rev (dropWhile isSpace (rev (dropWhile isSpace s)))"
  have 1: "dropWhile isSpace ?b = ?b" by (rule dropWhile_rev_dropWhile)
  have 2: "dropWhile isSpace (rev ?b) = rev ?b"
    by (simp add: dropWhile_idem)
  show ?thesis unfolding trim_def 1 2 by simp
qed

lemma endsWith_id_iff:
  "length n > 2 \<and> endsWith (toLowerCase n) ''id'' \<longleftrightarrow> 2 < length n \<and> endsWithId_spec n"
proof (cases "2 < length n")
  case False
  then show ?thesis by simp
next
  case True
  then have "n = take (length n - 2) n @ drop (length n - 2) n" by simp
  moreover have "length (drop (length n - 2) n) = 2" using True by simp
  then obtain x y where xy: "drop (length n - 2) n = [x, y]"
    by (metis (no_types, opaque_lifting) One_nat_def Suc_1 length_0_conv length_Suc_conv)
  ultimately have dec: "n = take (length n - 2) n @ [x, y]" by simp
  have "drop (length (map lowerChar n) - length ''id'') (map lowerChar n) = map lowerChar [x, y]"
    using xy by (simp add: drop_map numeral_2_eq_2)
  moreover have "length ''id'' \<le> length (map lowerChar n)" using True by simp
  ultimately have "endsWith (toLowerCase n) ''id'' \<longleftrightarrow> toLowerCase [x, y] = ''id''"
    unfolding endsWith_def toLowerCase_def by simp
  moreover have "endsWithId_spec n \<longleftrightarrow> toLowerCase [x, y] = ''id''"
  proof
    assume "endsWithId_spec n"
    then obtain b x' y' where "n = b @ [x', y']" "toLowerCase [x', y'] = ''id''"
      unfolding endsWithId_spec_def by blast
    then show "toLowerCase [x, y] = ''id''" using xy by simp
  next
    assume "toLowerCase [x, y] = ''id''"
    then show "endsWithId_spec n" unfolding endsWithId_spec_def using dec by blast
  qed
  ultimately show ?thesis using True by simp
qed

lemma sliceDropLast_2: "sliceDropLast n 2 = butlast (butlast n)"
  by (simp add: sliceDropLast_def butlast_conv_take numeral_2_eq_2)

lemma segment_eq:
  "(if strIncludes n CHR ''.'' then trim (sliceFrom n (lastIndexOf n CHR ''.'' + 1)) else trim n)
     = trim (lastSegment_spec n)"
proof (cases "strIncludes n CHR ''.''")
  case True
  then show ?thesis
    unfolding sliceFrom_def lastSegment_spec_def drop_lastIndexOf by simp
next
  case False
  then have "\<forall>x\<in>set (rev n). x \<noteq> CHR ''.''"
    unfolding strIncludes_def by auto
  then have tw: "takeWhile (\<lambda>c. c \<noteq> CHR ''.'') (rev n) = rev n"
    unfolding takeWhile_eq_all_conv .
  show ?thesis
    using False by (simp only: lastSegment_spec_def tw rev_rev_ident if_False)
qed

lemma getLookupObjectForField_refines:
  "getLookupObjectForField (Some fd) = lookupTarget_spec fd"
proof -
  let ?n0 = "trim (fieldKey fd)"
  have seg: "(if strIncludes ?n0 CHR ''.''
              then trim (sliceFrom ?n0 (lastIndexOf ?n0 CHR ''.'' + 1)) else ?n0)
             = trim (lastSegment_spec ?n0)"
  proof (cases "strIncludes ?n0 CHR ''.''")
    case True
    with segment_eq [of ?n0] show ?thesis by (simp only: if_True)
  next
    case False
    with segment_eq [of ?n0] trim_idem [of "fieldKey fd"] show ?thesis
      by (simp only: if_False)
  qed
  have derived: "(let name0 = ?n0;
                     name = (if strIncludes name0 CHR ''.''
                             then trim (sliceFrom name0 (lastIndexOf name0 CHR ''.'' + 1))
                             else name0)
                 in if length name > 2 \<and> endsWith (toLowerCase name) ''id''
                    then (let base = sliceDropLast name 2
                          in if toLowerCase base = ''owner'' then ''User'' else base)
                    else []) = derivedTarget_spec (fieldKey fd)"
    unfolding Let_def seg derivedTarget_spec_def sliceDropLast_2
    using endsWith_id_iff [of "trim (lastSegment_spec ?n0)"] by auto
  show ?thesis
    unfolding getLookupObjectForField_def lookupTarget_spec_def configuredTarget_spec_def
    using derived by (simp add: Let_def split: option.splits)
qed

text \<open>
  Claim C3. For every field descriptor, \<open>getLookupObjectForField\<close> returns the
  configured lookup target, trimmed, when one is supplied (the trimmed target is not
  empty). Otherwise it takes the field name (trimmed), keeps the segment after its last
  dot (trimmed again), and, when that name is longer than 2 and ends case-insensitively
  in \<open>id\<close>, returns the name without its last two characters, or \<open>User\<close> when that
  base equals \<open>owner\<close> case-insensitively; in every other case it returns the empty
  string. \<open>OwnerId\<close> resolves to \<open>User\<close>, \<open>Account.ParentId\<close> to \<open>Parent\<close> and
  \<open>Name\<close> to the empty string.
\<close>

theorem getLookupObjectForField_resolution:
  "getLookupObjectForField None = [] \<and>
   getLookupObjectForField (Some fd) = lookupTarget_spec fd \<and>
   getLookupObjectForField (Some (plainField ''OwnerId'')) = ''User'' \<and>
   getLookupObjectForField (Some (plainField ''Account.ParentId'')) = ''Parent'' \<and>
   getLookupObjectForField (Some (plainField ''Name'')) = []"
proof -
  have "getLookupObjectForField (Some (plainField ''OwnerId'')) = ''User''" by code_simp
  moreover have "getLookupObjectForField (Some (plainField ''Account.ParentId'')) = ''Parent''"
    by code_simp
  moreover have "getLookupObjectForField (Some (plainField ''Name'')) = []" by code_simp
  moreover have "getLookupObjectForField None = []" by (simp add: getLookupObjectForField_def)
  ultimately show ?thesis using getLookupObjectForField_refines by simp
qed

text \<open>
  Claim C6. \<open>isValidEmail\<close> is true on \<open>null\<close>, \<open>undefined\<close> and blank input, and on
  any other input exactly when the trimmed text is \<open>local@domain.tld\<close> with a single
  \<open>@\<close>, a dot after the domain and a top-level domain of at least two letters.
  \<open>isValidPhone\<close> is true on \<open>null\<close>, \<open>undefined\<close> and blank input, and on any other
  input exactly when at least ten digits remain after every non-digit is removed.
\<close>

theorem validators_spec:
  "(isValidEmail s \<longleftrightarrow> isBlank s \<or> emailPattern_spec (trim (toStr s))) \<and>
   (isValidPhone s \<longleftrightarrow> isBlank s \<or> 10 \<le> length (filter isDigit (toStr s))) \<and>
   isBlank JNull \<and> isBlank JUndefined \<and> isBlank (JStr []) \<and>
   isValidEmail (JStr ''a@b.co'') \<and> \<not> isValidEmail (JStr ''not-an-email'') \<and>
   isValidEmail (JStr []) \<and> isValidEmail JNull \<and>
   isValidPhone (JStr ''415-555-0100'') \<and> \<not> isValidPhone (JStr ''12345'') \<and>
   isValidPhone (JStr []) \<and> isValidPhone JNull"
proof -
  have e: "isValidEmail s \<longleftrightarrow> isBlank s \<or> emailPattern_spec (trim (toStr s))"
    by (simp add: isValidEmail_def isBlank_def EMAIL_REGEX_spec)
  have p: "isValidPhone s \<longleftrightarrow> isBlank s \<or> 10 \<le> length (filter isDigit (toStr s))"
    by (simp add: isValidPhone_def isBlank_def Let_def)
  have b: "isBlank JNull" "isBlank JUndefined" "isBlank (JStr [])"
    by (simp_all add: isBlank_def trim_def)
  have x1: "isValidEmail (JStr ''a@b.co'')" by code_simp
  have x2: "\<not> isValidEmail (JStr ''not-an-email'')" by code_simp
  have x3: "isValidEmail (JStr [])" "isValidEmail JNull" by code_simp+
  have y1: "isValidPhone (JStr ''415-555-0100'')" by code_simp
  have y2: "\<not> isValidPhone (JStr ''12345'')" by code_simp
  have y3: "isValidPhone (JStr [])" "isValidPhone JNull" by code_simp+
  show ?thesis using e p b x1 x2 x3 y1 y2 y3 by blast
qed

section \<open>Properties of the record viewer\<close>

lemma ceilDiv_ceiling: "b \<noteq> 0 \<Longrightarrow> ceilDiv a b = \<lceil>real_of_int a / real_of_int b\<rceil>"
  unfolding ceilDiv_def by (simp add: ceiling_divide_eq_div)

lemma newPageSize_nonzero: "newPageSize v \<noteq> 0"
  by (simp add: newPageSize_def split: option.splits)

lemma ceilDiv_neg_divisor: "0 \<le> a \<Longrightarrow> b < 0 \<Longrightarrow> ceilDiv a b \<le> 0"
  unfolding ceilDiv_def
  by (simp add: neg_imp_zdiv_nonneg_iff)

lemma ceilDiv_pos: "0 < a \<Longrightarrow> 0 < b \<Longrightarrow> 1 \<le> ceilDiv a b"
proof -
  assume a: "0 < a" and b: "0 < b"
  have "(- a) div b < 0" using a b by (simp add: pos_imp_zdiv_neg_iff)
  then show ?thesis unfolding ceilDiv_def by simp
qed

lemma clamp_le_totalPages:
  assumes "p \<noteq> 0" "0 \<le> n"
  shows "max 1 (ceilDiv n p) = (if n = 0 \<or> p \<le> 0 then 1 else ceilDiv n p)"
proof (cases "n = 0 \<or> p \<le> 0")
  case True
  then have "ceilDiv n p \<le> 0"
    using assms ceilDiv_neg_divisor [of n p] by (auto simp: ceilDiv_def)
  then show ?thesis using True by simp
next
  case False
  then have "1 \<le> ceilDiv n p" using assms ceilDiv_pos [of n p] by simp
  then show ?thesis using False by simp
qed

text \<open>
  Claim C7. Whenever \<open>handlePageSizeChange\<close> changes the page size, the current page
  (at least 1 before) becomes the smaller of itself and the page count, so it lies
  between 1 and the page count and never points past the end; the page count is
  \<open>ceil (rowCount / pageSize)\<close>, or 1 when that is smaller (no rows). With 205 rows and page size 50 there are 5 pages; changing the page size
  to 100 on page 5 moves the current page to 3.
\<close>

theorem handlePageSizeChange_clamps:
  assumes "1 \<le> currentPage st" and "newPageSize v \<noteq> pageSize st"
  shows "pageSize (handlePageSizeChange st v) = newPageSize v \<and>
         tableData (handlePageSizeChange st v) = tableData st \<and>
         currentPage (handlePageSizeChange st v) =
           min (currentPage st) (totalPages (handlePageSizeChange st v)) \<and>
         1 \<le> currentPage (handlePageSizeChange st v) \<and>
         currentPage (handlePageSizeChange st v) \<le> totalPages (handlePageSizeChange st v) \<and>
         totalPages (handlePageSizeChange st v) =
           max 1 (ceilDiv (totalRecords st) (newPageSize v)) \<and>
         totalPages (handlePageSizeChange st v) =
           max 1 \<lceil>real_of_int (totalRecords st) / real_of_int (newPageSize v)\<rceil>"
proof -
  let ?st' = "handlePageSizeChange st v"
  let ?p = "newPageSize v"
  let ?n = "totalRecords st"
  have p0: "?p \<noteq> 0" by (rule newPageSize_nonzero)
  have n0: "0 \<le> ?n" by (simp add: totalRecords_def)
  have m: "max 1 (ceilDiv ?n ?p) = (if ?n = 0 \<or> ?p \<le> 0 then 1 else ceilDiv ?n ?p)"
    using p0 n0 by (rule clamp_le_totalPages)
  have ps: "pageSize ?st' = ?p" and td: "tableData ?st' = tableData st"
    and cp: "currentPage ?st' = min (currentPage st) (max 1 (ceilDiv ?n ?p))"
    using assms(2) by (simp_all add: handlePageSizeChange_def Let_def totalRecords_def)
  have tp: "totalPages ?st' = max 1 (ceilDiv ?n ?p)"
    unfolding m by (simp add: totalPages_def ps totalRecords_def td)
  have tc: "totalPages ?st' = max 1 \<lceil>real_of_int ?n / real_of_int ?p\<rceil>"
    unfolding tp using ceilDiv_ceiling [OF p0, of ?n] by simp
  have "1 \<le> max 1 (ceilDiv ?n ?p)" by simp
  then show ?thesis using ps td cp tp tc assms(1) by simp
qed

theorem handlePageSizeChange_clamps_witness:
  "totalPages (viewerWith (replicate 205 []) 5 50) = 5 \<and>
   pageSize (handlePageSizeChange (viewerWith (replicate 205 []) 5 50) ''100'') = 100 \<and>
   totalPages (handlePageSizeChange (viewerWith (replicate 205 []) 5 50) ''100'') = 3 \<and>
   currentPage (handlePageSizeChange (viewerWith (replicate 205 []) 5 50) ''100'') = 3"
proof -
  let ?st = "viewerWith (replicate 205 []) 5 50"
  have h1: "1 \<le> currentPage ?st" by (simp add: viewerWith_def)
  have np: "newPageSize ''100'' = 100" by code_simp
  have h2: "newPageSize ''100'' \<noteq> pageSize ?st" unfolding np by (simp add: viewerWith_def)
  have tp: "totalPages ?st = 5" by code_simp
  have tr: "ceilDiv (totalRecords ?st) 100 = 3" by code_simp
  show ?thesis
    using handlePageSizeChange_clamps [OF h1 h2] tp tr unfolding np
    by (simp add: viewerWith_def)
qed
















lemma strLess_irrefl: "\<not> strLess s s"
  by (induction s) auto





















section \<open>Properties of the record modal\<close>

lemma validate_errorMessage: "validate (st\<lparr>errorMessage := e\<rparr>) tpl = validate st tpl"
  by (simp add: validate_def isEditMode_def)

lemma isEditMode_errorMessage: "isEditMode (st\<lparr>errorMessage := e\<rparr>) = isEditMode st"
  by (simp add: isEditMode_def)

lemma payloadStep_same:
  "normalizedValue parse (getProp rd (fieldKey f)) = normalizedValue parse (getProp init (fieldKey f))
     \<Longrightarrow> payloadStep parse True rd init payload f = payload"
  by (simp add: payloadStep_def Let_def)

lemma foldl_payloadStep_unmodified:
  "foldl (payloadStep parse True rd rd) payload flds = payload"
  by (induction flds arbitrary: payload) (simp_all add: payloadStep_same)

lemma buildPayload_unmodified: "buildPayload parse True rd rd flds = []"
  by (simp add: buildPayload_def foldl_payloadStep_unmodified)

lemma handleSave_rejected:
  assumes "snd (validate st tpl) = Some msg"
  shows "handleSave parse st tpl = (st\<lparr>errorMessage := msg\<rparr>, fst (validate st tpl), None)"
proof -
  obtain tpl' where v: "validate st tpl = (tpl', Some msg)"
    using assms by (cases "validate st tpl") auto
  show ?thesis
    by (simp add: handleSave_def Let_def validate_errorMessage v)
qed

lemma handleSave_no_changes:
  assumes "snd (validate st tpl) = None" "isEditMode st"
    and "buildPayload parse True (recordData st) (initialRecordValues st) (editFields st) = []"
  shows "handleSave parse st tpl =
           (st\<lparr>errorMessage := ''No fields were changed.''\<rparr>, fst (validate st tpl), None)"
proof -
  obtain tpl' where v: "validate st tpl = (tpl', None)"
    using assms(1) by (cases "validate st tpl") auto
  show ?thesis
    using assms(2,3)
    by (simp add: handleSave_def Let_def validate_errorMessage v isEditMode_errorMessage)
qed

text \<open>
  Claim C1. An edit session that is seeded with a record and whose working values are
  not modified has an empty payload, for every record and every list of fields. In edit
  mode, \<open>handleSave\<close> with an empty payload never starts a call (neither
  \<open>updateRecord\<close> nor any other): when the checks that precede the payload pass, it
  stops with the message \<open>No fields were changed.\<close>, and otherwise with the message of
  the failed check; the working values and the loading flag stay as they were.
\<close>

theorem edit_without_changes_rejected_locally:
  "buildPayload parse True rd rd flds = [] \<and>
   recordData (connectedCallback m) = initialRecordValues (connectedCallback m) \<and>
   recordData (connectedCallback m) = recordProp m \<and>
   isEditMode (connectedCallback m) = isEditMode m \<and>
   (isEditMode st \<and>
    buildPayload parse True (recordData st) (initialRecordValues st) (editFields st) = []
    \<longrightarrow>
      snd (snd (handleSave parse st tpl)) = None \<and>
      recordData (fst (handleSave parse st tpl)) = recordData st \<and>
      saveLoading (fst (handleSave parse st tpl)) = saveLoading st \<and>
      (snd (validate st tpl) = None \<longrightarrow>
         errorMessage (fst (handleSave parse st tpl)) = ''No fields were changed.'') \<and>
      (snd (validate st tpl) = Some msg \<longrightarrow>
         errorMessage (fst (handleSave parse st tpl)) = msg))"
proof -
  have a: "buildPayload parse True rd rd flds = []" by (rule buildPayload_unmodified)
  have b: "recordData (connectedCallback m) = initialRecordValues (connectedCallback m)"
    "recordData (connectedCallback m) = recordProp m"
    "isEditMode (connectedCallback m) = isEditMode m"
    by (simp_all add: connectedCallback_def isEditMode_def)
  have c: "snd (snd (handleSave parse st tpl)) = None \<and>
      recordData (fst (handleSave parse st tpl)) = recordData st \<and>
      saveLoading (fst (handleSave parse st tpl)) = saveLoading st \<and>
      (snd (validate st tpl) = None \<longrightarrow>
         errorMessage (fst (handleSave parse st tpl)) = ''No fields were changed.'') \<and>
      (snd (validate st tpl) = Some msg \<longrightarrow>
         errorMessage (fst (handleSave parse st tpl)) = msg)"
    if e: "isEditMode st"
      and p: "buildPayload parse True (recordData st) (initialRecordValues st) (editFields st) = []"
  proof (cases "snd (validate st tpl)")
    case None
    then show ?thesis using handleSave_no_changes [OF None e p] by simp
  next
    case (Some m')
    then show ?thesis using handleSave_rejected [OF Some] by simp
  qed
  show ?thesis using a b c by blast
qed

theorem edit_without_changes_rejected_locally_witness:
  "(let st = connectedCallback (newModal [(''Id'', JStr ''001''), (''Name'', JStr ''Acme'')]
               ''Account'' [typedField ''Name'' ''text'']);
        tpl = \<lparr> inputs = [inputFor ''Name''], comboboxes = [] \<rparr>
    in isEditMode st \<and>
       buildPayload isoParse True (recordData st) (initialRecordValues st) (editFields st) = [] \<and>
       snd (validate st tpl) = None \<and>
       snd (snd (handleSave isoParse st tpl)) = None \<and>
       errorMessage (fst (handleSave isoParse st tpl)) = ''No fields were changed.'' \<and>
       snd (validate (st\<lparr>objectApiName := []\<rparr>) tpl) = Some ''Object type is required.'' \<and>
       errorMessage (fst (handleSave isoParse (st\<lparr>objectApiName := []\<rparr>) tpl))
         = ''Object type is required.'')"
proof -
  let ?st = "connectedCallback (newModal [(''Id'', JStr ''001''), (''Name'', JStr ''Acme'')]
               ''Account'' [typedField ''Name'' ''text''])"
  let ?tpl = "\<lparr> inputs = [inputFor ''Name''], comboboxes = [] \<rparr>"
  let ?st2 = "?st\<lparr>objectApiName := []\<rparr>"
  have e: "isEditMode ?st" "isEditMode ?st2" by code_simp+
  have p: "buildPayload isoParse True (recordData ?st) (initialRecordValues ?st) (editFields ?st) = []"
    by code_simp
  have p2: "buildPayload isoParse True (recordData ?st2) (initialRecordValues ?st2) (editFields ?st2) = []"
    by code_simp
  have v: "snd (validate ?st ?tpl) = None" by code_simp
  have v2: "snd (validate ?st2 ?tpl) = Some ''Object type is required.''" by code_simp
  note A = edit_without_changes_rejected_locally
    [of isoParse "[]" "[]" ?st ?st ?tpl "''Object type is required.''"]
  note B = edit_without_changes_rejected_locally
    [of isoParse "[]" "[]" ?st ?st2 ?tpl "''Object type is required.''"]
  have r1: "snd (snd (handleSave isoParse ?st ?tpl)) = None \<and>
       errorMessage (fst (handleSave isoParse ?st ?tpl)) = ''No fields were changed.''"
    using A e(1) p v by blast
  have r2: "errorMessage (fst (handleSave isoParse ?st2 ?tpl)) = ''Object type is required.''"
    using B e(2) p2 v2 by blast
  show ?thesis unfolding Let_def using e(1) p v r1 v2 r2 by blast
qed

lemma payloadStep_create_empty:
  "isNullish (getProp rd (fieldKey f)) \<or> getProp rd (fieldKey f) = JStr []
     \<Longrightarrow> payloadStep parse False rd init payload f = payload"
  by (auto simp: payloadStep_def Let_def)

lemma buildPayload_create_empty:
  assumes "\<forall>f\<in>set flds. isNullish (getProp rd (fieldKey f)) \<or> getProp rd (fieldKey f) = JStr []"
  shows "buildPayload parse False rd init flds = []"
proof -
  have "foldl (payloadStep parse False rd init) payload flds = payload" for payload
    using assms
  proof (induction flds arbitrary: payload)
    case Nil
    show ?case by simp
  next
    case (Cons f fs)
    have "payloadStep parse False rd init payload f = payload"
      using Cons.prems by (intro payloadStep_create_empty) simp
    moreover have "foldl (payloadStep parse False rd init) payload fs = payload"
      using Cons by simp
    ultimately show ?case by simp
  qed
  then show ?thesis by (simp add: buildPayload_def)
qed

lemma handleSave_create:
  assumes "snd (validate st tpl) = None" "\<not> isEditMode st"
  shows "handleSave parse st tpl =
           (st\<lparr>saveLoading := True, errorMessage := []\<rparr>, fst (validate st tpl),
            Some (CreateRecord (objectApiName st)
                    (buildPayload parse False (recordData st) (initialRecordValues st)
                       (editFields st))))"
proof -
  obtain tpl' where v: "validate st tpl = (tpl', None)"
    using assms(1) by (cases "validate st tpl") auto
  show ?thesis
    using assms(2)
    by (simp add: handleSave_def Let_def validate_errorMessage v isEditMode_errorMessage)
qed

text \<open>
  Claim C10. In create mode the guard \<open>No fields were changed.\<close> does not apply: when
  every field's working value is \<open>null\<close>, \<open>undefined\<close> or the empty string, the payload
  is empty, and if the checks pass \<open>handleSave\<close> still starts \<open>createRecord\<close> with that
  empty payload, sets the loading flag and clears the error message.
\<close>

theorem create_with_empty_payload_calls_createRecord:
  assumes "\<not> isEditMode st"
    and "snd (validate st tpl) = None"
    and "\<forall>f\<in>set (editFields st).
           isNullish (getProp (recordData st) (fieldKey f)) \<or>
           getProp (recordData st) (fieldKey f) = JStr []"
  shows "buildPayload parse False (recordData st) (initialRecordValues st) (editFields st) = [] \<and>
         snd (snd (handleSave parse st tpl)) = Some (CreateRecord (objectApiName st) []) \<and>
         saveLoading (fst (handleSave parse st tpl)) \<and>
         errorMessage (fst (handleSave parse st tpl)) = [] \<and>
         errorMessage (fst (handleSave parse st tpl)) \<noteq> ''No fields were changed.''"
proof -
  have p: "buildPayload parse False (recordData st) (initialRecordValues st) (editFields st) = []"
    using assms(3) by (rule buildPayload_create_empty)
  show ?thesis
    using handleSave_create [OF assms(2) assms(1), of parse] p by simp
qed

theorem create_with_empty_payload_calls_createRecord_witness:
  "(let st = (connectedCallback (newModal [] ''Account''
                [typedField ''Name'' ''text'', typedField ''Email'' ''email'']))
             \<lparr>recordData := [(''Name'', JStr [])]\<rparr>;
        tpl = \<lparr> inputs = [inputFor ''Name'', inputFor ''Email''], comboboxes = [] \<rparr>
    in \<not> isEditMode st \<and> snd (validate st tpl) = None \<and>
       snd (snd (handleSave isoParse st tpl)) = Some (CreateRecord ''Account'' []) \<and>
       saveLoading (fst (handleSave isoParse st tpl)) \<and>
       errorMessage (fst (handleSave isoParse st tpl)) = [])"
proof -
  let ?st = "(connectedCallback (newModal [] ''Account''
                [typedField ''Name'' ''text'', typedField ''Email'' ''email'']))
             \<lparr>recordData := [(''Name'', JStr [])]\<rparr>"
  let ?tpl = "\<lparr> inputs = [inputFor ''Name'', inputFor ''Email''], comboboxes = [] \<rparr>"
  have h1: "\<not> isEditMode ?st" by code_simp
  have h2: "snd (validate ?st ?tpl) = None" by code_simp
  have h3: "\<forall>f\<in>set (editFields ?st).
           isNullish (getProp (recordData ?st) (fieldKey f)) \<or>
           getProp (recordData ?st) (fieldKey f) = JStr []" by code_simp
  have o: "objectApiName ?st = ''Account''" by code_simp
  show ?thesis
    unfolding Let_def
    using create_with_empty_payload_calls_createRecord [OF h1 h2 h3, of isoParse] h1 h2 o
    by (simp only:) simp
qed

lemma dataField_setFirst: "map dataField (setFirst fn msg els) = map dataField els"
  by (induction els) auto

lemma hasInput_iff: "hasInput tpl fn \<longleftrightarrow> Some fn \<in> set (map dataField (inputs tpl))"
  unfolding hasInput_def list_ex_iff by (simp add: image_iff) metis

lemma querySelector_None_iff: "querySelector tpl fn = None \<longleftrightarrow> \<not> hasInput tpl fn"
  unfolding hasInput_def list_ex_iff querySelector_def find_None_iff by blast

lemma hasInput_setCustomValidity:
  "hasInput (setCustomValidity tpl k msg) fn = hasInput tpl fn"
  unfolding hasInput_iff by (simp add: setCustomValidity_def dataField_setFirst)

lemma hasInput_clearLookupValidity:
  "hasInput (clearLookupValidity flds tpl) fn = hasInput tpl fn"
proof -
  have "hasInput (foldl (\<lambda>t f. setCustomValidity t (fieldKey f) []) tpl fs) fn
          = hasInput tpl fn" for fs
    by (induction fs arbitrary: tpl) (simp_all add: hasInput_setCustomValidity)
  then show ?thesis by (simp add: clearLookupValidity_def)
qed

lemma hasInput_requireLookup:
  "hasInput (fst (requireLookup rd acc f)) fn = hasInput (fst acc) fn"
proof (cases acc)
  case (Pair tpl ok)
  show ?thesis
    unfolding Pair requireLookup_def Let_def
    by (simp add: hasInput_setCustomValidity split: option.splits)
qed

lemma requireLookup_stays_invalid: "\<not> snd acc \<Longrightarrow> \<not> snd (requireLookup rd acc f)"
  by (cases acc) (simp add: requireLookup_def Let_def split: option.splits)

lemma requireLookup_fails:
  assumes "\<not> truthy (getProp rd (fieldKey f))" "hasInput (fst acc) (fieldKey f)"
  shows "\<not> snd (requireLookup rd acc f)"
proof (cases acc)
  case (Pair tpl ok)
  have "querySelector tpl (fieldKey f) \<noteq> None"
    using assms(2) Pair by (simp add: querySelector_None_iff)
  then obtain el where "querySelector tpl (fieldKey f) = Some el"
    by blast
  then show ?thesis
    using assms(1) unfolding Pair requireLookup_def Let_def
    by (simp add: reportValidity_def)
qed

lemma foldl_requireLookup_stays_invalid:
  "\<not> snd acc \<Longrightarrow> \<not> snd (foldl (requireLookup rd) acc fs)"
  by (induction fs arbitrary: acc) (simp_all add: requireLookup_stays_invalid)

lemma foldl_requireLookup_fails:
  assumes "f \<in> set fs" "\<not> truthy (getProp rd (fieldKey f))"
    and "hasInput (fst acc) (fieldKey f)"
  shows "\<not> snd (foldl (requireLookup rd) acc fs)"
  using assms(1,3)
proof (induction fs arbitrary: acc)
  case Nil
  then show ?case by simp
next
  case (Cons g gs)
  show ?case
  proof (cases "g = f")
    case True
    have "\<not> snd (requireLookup rd acc f)"
      using assms(2) Cons.prems(2) by (rule requireLookup_fails)
    then show ?thesis using True by (simp add: foldl_requireLookup_stays_invalid)
  next
    case False
    then have "f \<in> set gs" using Cons.prems(1) by simp
    moreover have "hasInput (fst (requireLookup rd acc g)) (fieldKey f)"
      using Cons.prems(2) by (simp add: hasInput_requireLookup)
    ultimately show ?thesis using Cons.IH by simp
  qed
qed

lemma validate_required_lookup:
  assumes "f \<in> set (editFields st)" "externalLookup f" "required f"
    and "\<not> truthy (getProp (recordData st) (fieldKey f))"
    and "hasInput tpl (fieldKey f)"
  shows "snd (validate st tpl) \<noteq> None"
proof -
  let ?tpl1 = "clearLookupValidity (editFields st) tpl"
  let ?ok = "list_all reportValidity (inputs ?tpl1) \<and> list_all (\<lambda>b. b) (comboboxes ?tpl1)"
  have "f \<in> set (filter (\<lambda>f. externalLookup f \<and> required f) (editFields st))"
    using assms(1-3) by simp
  moreover have "hasInput (fst (?tpl1, ?ok)) (fieldKey f)"
    using assms(5) by (simp add: hasInput_clearLookupValidity)
  ultimately have "\<not> snd (requireLookups (recordData st) (editFields st) (?tpl1, ?ok))"
    unfolding requireLookups_def using assms(4) by (intro foldl_requireLookup_fails)
  then show ?thesis
    unfolding validate_def Let_def
    by (auto split: prod.splits option.splits)
qed

lemma validate_message_nonempty: "snd (validate st tpl) = Some msg \<Longrightarrow> msg \<noteq> []"
  unfolding validate_def Let_def
  by (auto split: prod.splits option.splits if_splits)


lemma getProp_setProp: "getProp (setProp ob k v) k = v"
  by (simp add: getProp_def setProp_def update_conv')

lemma keystroke_clears:
  "getProp (recordData (modalOf (handleExternalLookupInput w fld v))) fld = JStr [] \<and>
   map_of (externalLookupDisplayMap (modalOf (handleExternalLookupInput w fld v))) fld = Some [] \<and>
   map_of (externalLookupSearchTerm (modalOf (handleExternalLookupInput w fld v))) fld = Some v \<and>
   editFields (modalOf (handleExternalLookupInput w fld v)) = editFields (modalOf w)"
  by (simp add: handleExternalLookupInput_def Let_def getProp_setProp update_conv')

text \<open>
  Claim C9. Every keystroke in a lookup input sets the field's working value and its
  selected label to the empty string and keeps the typed text only as the search term;
  selecting an option writes the option's value into the working value. When the
  template has an input bound to a required external lookup field and the field's
  working value is empty, \<open>handleSave\<close> is rejected: no call is started and an error
  message is shown. So after a keystroke, typed text alone never satisfies the
  requirement.
\<close>

theorem required_lookup_needs_selection:
  "getProp (recordData (modalOf (handleExternalLookupInput w fld v))) fld = JStr [] \<and>
   map_of (externalLookupDisplayMap (modalOf (handleExternalLookupInput w fld v))) fld = Some [] \<and>
   map_of (externalLookupSearchTerm (modalOf (handleExternalLookupInput w fld v))) fld = Some v \<and>
   getProp (recordData (fst (handleExternalLookupSelect st tpl fld x lbl))) fld = JStr x \<and>
   (f \<in> set (editFields st) \<and> externalLookup f \<and> required f \<and>
    \<not> truthy (getProp (recordData st) (fieldKey f)) \<and> hasInput tpl (fieldKey f)
    \<longrightarrow> snd (validate st tpl) \<noteq> None \<and>
        snd (snd (handleSave parse st tpl)) = None \<and>
        errorMessage (fst (handleSave parse st tpl)) \<noteq> []) \<and>
   (f \<in> set (editFields (modalOf w)) \<and> externalLookup f \<and> required f \<and>
    hasInput tpl (fieldKey f)
    \<longrightarrow> snd (snd (handleSave parse (modalOf (handleExternalLookupInput w (fieldKey f) v)) tpl)) = None \<and>
        errorMessage (fst (handleSave parse (modalOf (handleExternalLookupInput w (fieldKey f) v)) tpl))
          \<noteq> [])"
proof -
  have sel: "getProp (recordData (fst (handleExternalLookupSelect st tpl fld x lbl))) fld = JStr x"
    by (simp add: handleExternalLookupSelect_def getProp_setProp)
  have save: "snd (validate s t) \<noteq> None \<and>
        snd (snd (handleSave parse s t)) = None \<and>
        errorMessage (fst (handleSave parse s t)) \<noteq> []"
    if "f \<in> set (editFields s)" "externalLookup f" "required f"
      "\<not> truthy (getProp (recordData s) (fieldKey f))" "hasInput t (fieldKey f)" for s t
  proof -
    have v: "snd (validate s t) \<noteq> None" using that by (rule validate_required_lookup)
    then obtain msg where m: "snd (validate s t) = Some msg" by blast
    have "msg \<noteq> []" using m by (rule validate_message_nonempty)
    then show ?thesis using v handleSave_rejected [OF m, of parse] by simp
  qed
  have typed: "snd (snd (handleSave parse (modalOf (handleExternalLookupInput w (fieldKey f) v)) tpl)) = None \<and>
        errorMessage (fst (handleSave parse (modalOf (handleExternalLookupInput w (fieldKey f) v)) tpl))
          \<noteq> []"
    if "f \<in> set (editFields (modalOf w))" "externalLookup f" "required f" "hasInput tpl (fieldKey f)"
  proof -
    let ?s = "modalOf (handleExternalLookupInput w (fieldKey f) v)"
    have "f \<in> set (editFields ?s)" using that(1) keystroke_clears [of w "fieldKey f" v] by simp
    moreover have "\<not> truthy (getProp (recordData ?s) (fieldKey f))"
      using keystroke_clears [of w "fieldKey f" v] by simp
    ultimately show ?thesis using save [of ?s tpl] that(2-4) by blast
  qed
  show ?thesis
    using keystroke_clears [of w fld v] sel save [of st tpl] typed by blast
qed

theorem required_lookup_needs_selection_witness:
  "(let st = connectedCallback (newModal [(''Id'', JStr ''001''), (''OwnerId'', JStr ''005'')]
               ''Account'' [lookupField ''OwnerId'' True]);
        tpl = \<lparr> inputs = [inputFor ''OwnerId''], comboboxes = [] \<rparr>;
        f = lookupField ''OwnerId'' True;
        typed = modalOf (handleExternalLookupInput (newWorld st) ''OwnerId'' ''Ali'');
        chosen = fst (handleExternalLookupSelect typed tpl ''OwnerId'' ''005X'' ''Alice'')
    in f \<in> set (editFields st) \<and> externalLookup f \<and> required f \<and>
       hasInput tpl (fieldKey f) \<and>
       getProp (recordData typed) ''OwnerId'' = JStr [] \<and>
       snd (snd (handleSave isoParse typed tpl)) = None \<and>
       errorMessage (fst (handleSave isoParse typed tpl))
          = ''Please fix validation errors before saving.'' \<and>
       getProp (recordData chosen) ''OwnerId'' = JStr ''005X'' \<and>
       snd (snd (handleSave isoParse chosen tpl))
          = Some (UpdateRecord ''Account'' (JStr ''001'') [(''OwnerId'', JStr ''005X'')]))"
proof -
  let ?st = "connectedCallback (newModal [(''Id'', JStr ''001''), (''OwnerId'', JStr ''005'')]
               ''Account'' [lookupField ''OwnerId'' True])"
  let ?tpl = "\<lparr> inputs = [inputFor ''OwnerId''], comboboxes = [] \<rparr>"
  let ?f = "lookupField ''OwnerId'' True"
  let ?w = "newWorld ?st"
  let ?typed = "modalOf (handleExternalLookupInput ?w ''OwnerId'' ''Ali'')"
  let ?chosen = "fst (handleExternalLookupSelect ?typed ?tpl ''OwnerId'' ''005X'' ''Alice'')"
  have k: "fieldKey ?f = ''OwnerId''" by code_simp
  have h: "?f \<in> set (editFields ?st)" "externalLookup ?f" "required ?f"
    "hasInput ?tpl (fieldKey ?f)" by code_simp+
  have h': "?f \<in> set (editFields (modalOf ?w))" by code_simp
  have e: "\<not> truthy (getProp (recordData ?typed) (fieldKey ?f))" by code_simp
  have ef: "?f \<in> set (editFields ?typed)" by code_simp
  note T = required_lookup_needs_selection
    [of ?w "''OwnerId''" "''Ali''" ?typed ?tpl "''005X''" "''Alice''" ?f isoParse]
  have r1: "getProp (recordData ?typed) ''OwnerId'' = JStr []" using T by blast
  have r2: "snd (snd (handleSave isoParse ?typed ?tpl)) = None"
    using T ef h(2,3,4) e by blast
  have r3: "getProp (recordData ?chosen) ''OwnerId'' = JStr ''005X''" using T by blast
  have r4: "errorMessage (fst (handleSave isoParse ?typed ?tpl))
          = ''Please fix validation errors before saving.''" by code_simp
  have r5: "snd (snd (handleSave isoParse ?chosen ?tpl))
          = Some (UpdateRecord ''Account'' (JStr ''001'') [(''OwnerId'', JStr ''005X'')])"
    by code_simp
  show ?thesis unfolding Let_def using h r1 r2 r3 r4 r5 by blast
qed
















section \<open>Failures of the calls to the controller\<close>

lemma orElse_nonempty: "b \<noteq> [] \<Longrightarrow> orElse a b \<noteq> []"
  by (simp add: orElse_def split: option.splits)

lemma errorText_nonempty: "b \<noteq> [] \<Longrightarrow> errorText e b \<noteq> []"
  by (simp add: errorText_def orElse_nonempty)

lemma loadRecords_then_failure:
  "\<not> success resp \<Longrightarrow>
     loadRecords_then st resp =
       st\<lparr>isLoading := False,
          errorMessage := orElse (respErrorMessage resp) ''An error occurred.'',
          tableData := [], tableColumns := [], sortedBy := [], sortedDirection := ''asc''\<rparr>"
  by (simp add: loadRecords_then_def Let_def)

lemma handleDelete_then_failure:
  "\<not> success resp \<Longrightarrow>
     handleDelete_then st resp =
       (st\<lparr>isLoading := False,
           errorMessage := orElse (respErrorMessage resp) ''Failed to delete.''\<rparr>, None)"
  by (simp add: handleDelete_then_def Let_def)

lemma handleSaveResponse_failure:
  "\<not> success resp \<Longrightarrow>
     handleSaveResponse m resp failMessage =
       (m\<lparr>saveLoading := False,
           errorMessage := orElse (respErrorMessage resp) failMessage\<rparr>, False)"
  by (simp add: handleSaveResponse_def Let_def)

text \<open>
  Claim C8 (as amended). A failed delete and a failed save (a rejection or an answer
  with \<open>success: false\<close>) are abandoned with a top-level error message, and nothing
  else changes but the loading flag: the rows, the columns, the page, the sort and the
  edit session (working values, initial values, fields) stay as they were, no further
  call is started and the modal stays open. A failed load also shows an error message,
  but it empties the rows and the columns and resets the sort; the page, the page size
  and the search term stay as they were.
\<close>

theorem failed_calls_state:
  "(\<not> success resp \<longrightarrow>
      handleDelete_then st resp =
        (st\<lparr>isLoading := False,
            errorMessage := orElse (respErrorMessage resp) ''Failed to delete.''\<rparr>, None) \<and>
      handleSaveResponse m resp failMessage =
        (m\<lparr>saveLoading := False,
            errorMessage := orElse (respErrorMessage resp) failMessage\<rparr>, False) \<and>
      loadRecords_then st resp =
        st\<lparr>isLoading := False,
           errorMessage := orElse (respErrorMessage resp) ''An error occurred.'',
           tableData := [], tableColumns := [], sortedBy := [], sortedDirection := ''asc''\<rparr>) \<and>
   handleDelete_catch st err =
     st\<lparr>isLoading := False, errorMessage := errorText err ''Failed to delete.''\<rparr> \<and>
   handleSave_catch m err failMessage =
     m\<lparr>saveLoading := False, errorMessage := errorText err failMessage\<rparr> \<and>
   loadRecords_catch st err =
     st\<lparr>isLoading := False, errorMessage := errorText err ''Failed to load records.'',
        tableData := [], tableColumns := [], sortedBy := [], sortedDirection := ''asc''\<rparr> \<and>
   orElse (respErrorMessage resp) ''Failed to delete.'' \<noteq> [] \<and>
   orElse (respErrorMessage resp) ''An error occurred.'' \<noteq> [] \<and>
   errorText err ''Failed to delete.'' \<noteq> [] \<and>
   errorText err ''Failed to load records.'' \<noteq> [] \<and>
   (failMessage \<noteq> [] \<longrightarrow>
      orElse (respErrorMessage resp) failMessage \<noteq> [] \<and> errorText err failMessage \<noteq> [])"
proof -
  have a: "handleDelete_catch st err =
     st\<lparr>isLoading := False, errorMessage := errorText err ''Failed to delete.''\<rparr>"
    by (simp add: handleDelete_catch_def)
  have b: "handleSave_catch m err failMessage =
     m\<lparr>saveLoading := False, errorMessage := errorText err failMessage\<rparr>"
    by (simp add: handleSave_catch_def)
  have c: "loadRecords_catch st err =
     st\<lparr>isLoading := False, errorMessage := errorText err ''Failed to load records.'',
        tableData := [], tableColumns := [], sortedBy := [], sortedDirection := ''asc''\<rparr>"
    by (simp add: loadRecords_catch_def)
  have d: "orElse (respErrorMessage resp) ''Failed to delete.'' \<noteq> []"
    "orElse (respErrorMessage resp) ''An error occurred.'' \<noteq> []"
    "errorText err ''Failed to delete.'' \<noteq> []"
    "errorText err ''Failed to load records.'' \<noteq> []"
    by (simp_all add: orElse_nonempty errorText_nonempty)
  have e: "orElse (respErrorMessage resp) failMessage \<noteq> [] \<and> errorText err failMessage \<noteq> []"
    if "failMessage \<noteq> []"
    using that by (simp add: orElse_nonempty errorText_nonempty)
  show ?thesis
    using a b c d e handleDelete_then_failure [of resp st]
      handleSaveResponse_failure [of resp m failMessage] loadRecords_then_failure [of resp st]
    by blast
qed

theorem failed_calls_state_witness:
  "(let st = viewerWith [[(''Id'', JStr ''001''), (''Name'', JStr ''Acme'')]] 1 25;
        m = connectedCallback (newModal [(''Id'', JStr ''001''), (''Name'', JStr ''Acme'')]
              ''Account'' [typedField ''Name'' ''text'']);
        resp = \<lparr> success = False, respErrorMessage = Some ''Server said no'',
                 records = None, columns = None \<rparr>
    in \<not> success resp \<and>
       tableData (fst (handleDelete_then st resp)) = tableData st \<and>
       tableColumns (fst (handleDelete_then st resp)) = tableColumns st \<and>
       errorMessage (fst (handleDelete_then st resp)) = ''Server said no'' \<and>
       snd (handleDelete_then st resp) = None \<and>
       recordData (fst (handleSaveResponse m resp ''Failed to save.'')) = recordData m \<and>
       errorMessage (fst (handleSaveResponse m resp ''Failed to save.'')) = ''Server said no'' \<and>
       tableData (loadRecords_then st resp) = [] \<and>
       tableColumns (loadRecords_then st resp) = [] \<and>
       currentPage (loadRecords_then st resp) = currentPage st)"
proof -
  let ?st = "viewerWith [[(''Id'', JStr ''001''), (''Name'', JStr ''Acme'')]] 1 25"
  let ?m = "connectedCallback (newModal [(''Id'', JStr ''001''), (''Name'', JStr ''Acme'')]
              ''Account'' [typedField ''Name'' ''text''])"
  let ?resp = "\<lparr> success = False, respErrorMessage = Some ''Server said no'',
                 records = None, columns = None \<rparr>"
  let ?err = "\<lparr> body_message = None, message = None \<rparr>"
  have h: "\<not> success ?resp" by simp
  have h2: "''Failed to save.'' \<noteq> []" by simp
  have o: "orElse (respErrorMessage ?resp) ''Failed to delete.'' = ''Server said no''"
    "orElse (respErrorMessage ?resp) ''Failed to save.'' = ''Server said no''"
    by (simp_all add: orElse_def)
  note T = failed_calls_state [of ?resp ?st ?m "''Failed to save.''" ?err]
  have d: "handleDelete_then ?st ?resp =
        (?st\<lparr>isLoading := False,
            errorMessage := orElse (respErrorMessage ?resp) ''Failed to delete.''\<rparr>, None)"
    using T h by blast
  have s: "handleSaveResponse ?m ?resp ''Failed to save.'' =
        (?m\<lparr>saveLoading := False,
            errorMessage := orElse (respErrorMessage ?resp) ''Failed to save.''\<rparr>, False)"
    using T h by blast
  have l: "loadRecords_then ?st ?resp =
        ?st\<lparr>isLoading := False,
           errorMessage := orElse (respErrorMessage ?resp) ''An error occurred.'',
           tableData := [], tableColumns := [], sortedBy := [], sortedDirection := ''asc''\<rparr>"
    using T h by blast
  show ?thesis
    unfolding Let_def d s l o using h by simp
qed

theorem failed_load_clears_rows_counterexample:
  "tableData (viewerWith [[(''Id'', JStr ''001'')]] 1 25) = [[(''Id'', JStr ''001'')]] \<and>
   tableColumns (viewerWith [[(''Id'', JStr ''001'')]] 1 25) = [ActionCol] \<and>
   tableData (loadRecords_catch (viewerWith [[(''Id'', JStr ''001'')]] 1 25)
                \<lparr> body_message = None, message = Some ''Network error'' \<rparr>) = [] \<and>
   tableColumns (loadRecords_catch (viewerWith [[(''Id'', JStr ''001'')]] 1 25)
                \<lparr> body_message = None, message = Some ''Network error'' \<rparr>) = [] \<and>
   tableData (loadRecords_then (viewerWith [[(''Id'', JStr ''001'')]] 1 25)
                \<lparr> success = False, respErrorMessage = None, records = None, columns = None \<rparr>)
     = []"
  by (simp add: viewerWith_def loadRecords_catch_def loadRecords_then_def Let_def)

section \<open>Properties of the search controller\<close>

lemma find_unique:
  assumes "x \<in> set xs" "P x" "\<And>y. y \<in> set xs \<Longrightarrow> P y \<Longrightarrow> y = x"
  shows "find P xs = Some x"
  using assms
proof (induction xs)
  case Nil
  then show ?case by simp
next
  case (Cons a as)
  show ?case
  proof (cases "P a")
    case True
    then have "a = x" using Cons.prems(3) [of a] by simp
    then show ?thesis using True by simp
  next
    case False
    then have xs: "x \<in> set as" using Cons.prems(1,2) by auto
    have "find P as = Some x"
    proof (rule Cons.IH [OF xs Cons.prems(2)])
      fix y assume "y \<in> set as" "P y"
      then show "y = x" using Cons.prems(3) [of y] by simp
    qed
    then show ?thesis using False by simp
  qed
qed

text \<open>What one keystroke does to the timers.\<close>

lemma keystroke_pending:
  assumes "timersRecorded w"
  shows "\<exists>pending. timers (handleExternalLookupInput w fld v) = pending @ [(nextTimerId w, fld, trim v)]
           \<and> set pending \<subseteq> set (timers w) \<and> (\<forall>t\<in>set pending. fst (snd t) \<noteq> fld)"
proof -
  let ?rec = "map_of (externalSearchTimeouts (modalOf w)) fld"
  let ?pending = "case ?rec of None \<Rightarrow> timers w
                  | Some tid \<Rightarrow> if tid \<noteq> 0 then clearTimeout tid (timers w) else timers w"
  have inv: "\<And>t. t \<in> set (timers w) \<Longrightarrow>
               map_of (externalSearchTimeouts (modalOf w)) (fst (snd t)) = Some (fst t) \<and> 0 < fst t"
    using assms by (auto simp: timersRecorded_def list_all_iff)
  have tm: "timers (handleExternalLookupInput w fld v) = ?pending @ [(nextTimerId w, fld, trim v)]"
    by (simp add: handleExternalLookupInput_def Let_def)
  have sub: "set ?pending \<subseteq> set (timers w)"
    by (auto simp: clearTimeout_def split: option.splits)
  have none: "fst (snd t) \<noteq> fld" if t: "t \<in> set ?pending" for t
  proof
    assume f: "fst (snd t) = fld"
    have tw: "t \<in> set (timers w)" using t sub by blast
    then have r: "?rec = Some (fst t)" and p: "0 < fst t" using inv [of t] f by auto
    have "t \<in> set (clearTimeout (fst t) (timers w))"
      using t r p by simp
    then show False by (simp add: clearTimeout_def)
  qed
  show ?thesis using tm sub none by blast
qed

lemma keystroke_modal:
  "modalOf (handleExternalLookupInput w fld v) =
     (modalOf w)\<lparr>externalLookupSearchTerm :=
                   AList.update fld v (externalLookupSearchTerm (modalOf w)),
                 recordData := setProp (recordData (modalOf w)) fld (JStr []),
                 externalLookupDisplayMap :=
                   AList.update fld [] (externalLookupDisplayMap (modalOf w)),
                 externalLookupDropdownOpen :=
                   AList.update fld True (externalLookupDropdownOpen (modalOf w)),
                 externalSearchTimeouts :=
                   AList.update fld (nextTimerId w) (externalSearchTimeouts (modalOf w))\<rparr>"
  by (simp add: handleExternalLookupInput_def Let_def)

lemma keystroke_other_fields:
  "editFields (modalOf (handleExternalLookupInput w fld v)) = editFields (modalOf w) \<and>
   (g \<noteq> fld \<longrightarrow>
      map_of (externalSearchTimeouts (modalOf (handleExternalLookupInput w fld v))) g
        = map_of (externalSearchTimeouts (modalOf w)) g) \<and>
   map_of (externalSearchTimeouts (modalOf (handleExternalLookupInput w fld v))) fld
     = Some (nextTimerId w)"
  unfolding keystroke_modal by (simp add: update_conv')

lemma keystroke_counters:
  "nextTimerId (handleExternalLookupInput w fld v) = Suc (nextTimerId w) \<and>
   inflight (handleExternalLookupInput w fld v) = inflight w \<and>
   nextQueryId (handleExternalLookupInput w fld v) = nextQueryId w"
  by (simp add: handleExternalLookupInput_def Let_def)

lemma keystroke_step:
  assumes "timersRecorded w"
  shows "timersRecorded (handleExternalLookupInput w fld v) \<and>
         timersFor (handleExternalLookupInput w fld v) fld = [(nextTimerId w, fld, trim v)] \<and>
         (\<forall>t\<in>set (timers (handleExternalLookupInput w fld v)).
            fst t = nextTimerId w \<longrightarrow> t = (nextTimerId w, fld, trim v))"
proof -
  let ?w' = "handleExternalLookupInput w fld v"
  let ?new = "(nextTimerId w, fld, trim v)"
  obtain pending where tm: "timers ?w' = pending @ [?new]"
    and sub: "set pending \<subseteq> set (timers w)" and none: "\<forall>t\<in>set pending. fst (snd t) \<noteq> fld"
    using keystroke_pending [OF assms, of fld v] by blast
  have inv: "\<And>t. t \<in> set (timers w) \<Longrightarrow>
               map_of (externalSearchTimeouts (modalOf w)) (fst (snd t)) = Some (fst t) \<and>
               0 < fst t \<and> fst t < nextTimerId w"
    and pos: "0 < nextTimerId w"
    using assms by (auto simp: timersRecorded_def list_all_iff)
  have o: "\<And>g. g \<noteq> fld \<Longrightarrow>
             map_of (externalSearchTimeouts (modalOf ?w')) g
               = map_of (externalSearchTimeouts (modalOf w)) g"
    and o': "map_of (externalSearchTimeouts (modalOf ?w')) fld = Some (nextTimerId w)"
    using keystroke_other_fields [of w fld v] by blast+
  note c = keystroke_counters [of w fld v]
  have old: "map_of (externalSearchTimeouts (modalOf ?w')) (fst (snd t)) = Some (fst t) \<and>
             0 < fst t \<and> fst t < nextTimerId ?w'" if "t \<in> set pending" for t
  proof -
    have tw: "t \<in> set (timers w)" and nf: "fst (snd t) \<noteq> fld" using that sub none by auto
    have "map_of (externalSearchTimeouts (modalOf ?w')) (fst (snd t))
            = map_of (externalSearchTimeouts (modalOf w)) (fst (snd t))"
      using o [OF nf] .
    then show ?thesis using inv [OF tw] c by simp
  qed
  have new: "map_of (externalSearchTimeouts (modalOf ?w')) (fst (snd ?new)) = Some (fst ?new) \<and>
             0 < fst ?new \<and> fst ?new < nextTimerId ?w'"
    using o' pos c by simp
  have rec: "timersRecorded ?w'"
    unfolding timersRecorded_def list_all_iff tm using old new c by auto
  have "filter (\<lambda>t. fst (snd t) = fld) pending = []"
    using none by (simp add: filter_empty_conv)
  then have one: "timersFor ?w' fld = [?new]"
    by (simp add: timersFor_def tm)
  have uniq: "\<forall>t\<in>set (timers ?w'). fst t = nextTimerId w \<longrightarrow> t = ?new"
  proof
    fix t assume t: "t \<in> set (timers ?w')"
    show "fst t = nextTimerId w \<longrightarrow> t = ?new"
    proof (cases "t \<in> set pending")
      case True
      then have "fst t < nextTimerId w" using inv [of t] sub by blast
      then show ?thesis by simp
    next
      case False
      then have "t = ?new" using t tm by simp
      then show ?thesis by simp
    qed
  qed
  show ?thesis using rec one uniq by blast
qed


lemma typeKeys_Cons:
  "typeKeys w fld (v # vs) = typeKeys (handleExternalLookupInput w fld v) fld vs"
  by (simp add: typeKeys_def)

lemma typeKeys_unchanged:
  "inflight (typeKeys w fld vs) = inflight w \<and>
   nextQueryId (typeKeys w fld vs) = nextQueryId w \<and>
   editFields (modalOf (typeKeys w fld vs)) = editFields (modalOf w)"
proof (induction vs arbitrary: w)
  case Nil
  show ?case by (simp add: typeKeys_def)
next
  case (Cons v vs)
  show ?case
    unfolding typeKeys_Cons
    using Cons [of "handleExternalLookupInput w fld v"]
      keystroke_counters [of w fld v] keystroke_other_fields [of w fld v]
    by simp
qed

lemma typeKeys_timers:
  assumes "timersRecorded w" "vs \<noteq> []"
  shows "timersRecorded (typeKeys w fld vs) \<and>
         timersFor (typeKeys w fld vs) fld
           = [(nextTimerId w + length vs - 1, fld, trim (last vs))] \<and>
         (\<forall>t\<in>set (timers (typeKeys w fld vs)).
            fst t = nextTimerId w + length vs - 1 \<longrightarrow>
            t = (nextTimerId w + length vs - 1, fld, trim (last vs)))"
  using assms
proof (induction vs arbitrary: w)
  case Nil
  then show ?case by simp
next
  case (Cons v vs)
  let ?w1 = "handleExternalLookupInput w fld v"
  note step = keystroke_step [OF Cons.prems(1), of fld v]
  show ?case
  proof (cases "vs = []")
    case True
    then show ?thesis using step by (simp add: typeKeys_def)
  next
    case False
    have r: "timersRecorded ?w1" using step by blast
    have n: "nextTimerId ?w1 + length vs - 1 = nextTimerId w + length (v # vs) - 1"
      using keystroke_counters [of w fld v] False by (cases vs) simp_all
    have l: "last (v # vs) = last vs" using False by simp
    show ?thesis
      unfolding typeKeys_Cons using Cons.IH [OF r False] unfolding n l .
  qed
qed

text \<open>Firing the pending timer sends one search; firing a cancelled one does nothing.\<close>

lemma timerFired_cancelled:
  "tid \<notin> fst ` set (timers w) \<Longrightarrow> timerFired w tid = w"
proof -
  assume "tid \<notin> fst ` set (timers w)"
  then have "find (\<lambda>t. fst t = tid) (timers w) = None"
    unfolding find_None_iff by force
  then show ?thesis by (simp add: timerFired_def)
qed

lemma timerFired_sends:
  assumes f: "find (\<lambda>t. fst t = tid) (timers w) = Some (tid, fld, srch)"
    and t: "getLookupObjectForField (find (\<lambda>f. rawKey f = Some fld) (editFields (modalOf w))) \<noteq> []"
  shows "inflight (timerFired w tid) =
           inflight w @
             [(nextQueryId w, fld,
               SearchExternalRecords
                 (getLookupObjectForField (find (\<lambda>f. rawKey f = Some fld) (editFields (modalOf w))))
                 srch EXTERNAL_LOOKUP_MAX_RESULTS)] \<and>
         timers (timerFired w tid) = clearTimeout tid (timers w) \<and>
         modalOf (timerFired w tid) = modalOf w"
  using t by (simp add: timerFired_def f Let_def)

lemma searchResolved_stores:
  assumes "find (\<lambda>q. fst q = qid) (inflight w) = Some (qid, fld, c)"
  shows "map_of (externalLookupOptionsMap (modalOf (searchResolved w qid opts))) fld
           = Some (case opts of None \<Rightarrow> [] | Some os \<Rightarrow> os)"
  using assms by (simp add: searchResolved_def Let_def update_conv')


text \<open>
  Claim C2 (as amended). For every lookup field, keystrokes typed within the debounce
  window (no timer fires between them) leave exactly one pending timer for the field,
  carrying the last term, and send no search; when that timer fires and the field has a
  lookup target, exactly one search is sent, for the last term, and a cancelled timer
  does nothing. An answer is not compared with any later keystroke or search: whenever
  the answer to a search that is still awaited arrives, it becomes the field's option
  list.
\<close>

theorem debounce_one_query_answers_unchecked:
  assumes "timersRecorded w" "vs \<noteq> []"
  shows
    "timersRecorded (typeKeys w fld vs) \<and>
     timersFor (typeKeys w fld vs) fld = [(nextTimerId w + length vs - 1, fld, trim (last vs))] \<and>
     inflight (typeKeys w fld vs) = inflight w \<and>
     (getLookupObjectForField (find (\<lambda>f. rawKey f = Some fld) (editFields (modalOf w))) \<noteq> []
      \<longrightarrow>
        inflight (timerFired (typeKeys w fld vs) (nextTimerId w + length vs - 1)) =
          inflight w @
            [(nextQueryId w, fld,
              SearchExternalRecords
                (getLookupObjectForField
                   (find (\<lambda>f. rawKey f = Some fld) (editFields (modalOf w))))
                (trim (last vs)) EXTERNAL_LOOKUP_MAX_RESULTS)] \<and>
        timersFor (timerFired (typeKeys w fld vs) (nextTimerId w + length vs - 1)) fld = []) \<and>
     (tid \<notin> fst ` set (timers (typeKeys w fld vs))
      \<longrightarrow> timerFired (typeKeys w fld vs) tid = typeKeys w fld vs) \<and>
     (find (\<lambda>q. fst q = qid) (inflight w') = Some (qid, fld', c)
      \<longrightarrow> map_of (externalLookupOptionsMap (modalOf (searchResolved w' qid opts))) fld'
            = Some (case opts of None \<Rightarrow> [] | Some os \<Rightarrow> os))"
proof -
  let ?w = "typeKeys w fld vs"
  let ?tid = "nextTimerId w + length vs - 1"
  let ?t = "(?tid, fld, trim (last vs))"
  let ?target = "getLookupObjectForField (find (\<lambda>f. rawKey f = Some fld) (editFields (modalOf w)))"
  note T = typeKeys_timers [OF assms, of fld]
  note U = typeKeys_unchanged [of w fld vs]
  have rec: "timersRecorded ?w" and one: "timersFor ?w fld = [?t]"
    and uniq: "\<And>t. t \<in> set (timers ?w) \<Longrightarrow> fst t = ?tid \<Longrightarrow> t = ?t"
    using T by blast+
  have infl: "inflight ?w = inflight w" using U by blast
  have "?t \<in> set (timersFor ?w fld)" unfolding one by simp
  then have mem: "?t \<in> set (timers ?w)" by (simp add: timersFor_def)
  have fnd: "find (\<lambda>t. fst t = ?tid) (timers ?w) = Some ?t"
  proof (rule find_unique [OF mem])
    show "fst ?t = ?tid" by simp
  next
    fix y assume "y \<in> set (timers ?w)" "fst y = ?tid"
    then show "y = ?t" by (rule uniq)
  qed
  have fire: "inflight (timerFired ?w ?tid) =
          inflight w @
            [(nextQueryId w, fld,
              SearchExternalRecords ?target (trim (last vs)) EXTERNAL_LOOKUP_MAX_RESULTS)] \<and>
        timersFor (timerFired ?w ?tid) fld = []" if tg: "?target \<noteq> []"
  proof -
    have tg': "getLookupObjectForField
                 (find (\<lambda>f. rawKey f = Some fld) (editFields (modalOf ?w))) \<noteq> []"
      using tg U by simp
    note S = timerFired_sends [OF fnd tg']
    have a: "inflight (timerFired ?w ?tid) =
          inflight w @
            [(nextQueryId w, fld,
              SearchExternalRecords ?target (trim (last vs)) EXTERNAL_LOOKUP_MAX_RESULTS)]"
      using S U by simp
    have "timersFor (timerFired ?w ?tid) fld
            = filter (\<lambda>t. fst t \<noteq> ?tid) (timersFor ?w fld)"
      using S by (simp add: timersFor_def clearTimeout_def conj_commute)
    then have b: "timersFor (timerFired ?w ?tid) fld = []"
      unfolding one by simp
    show ?thesis using a b by blast
  qed
  have canc: "timerFired ?w tid = ?w" if "tid \<notin> fst ` set (timers ?w)"
    using that by (rule timerFired_cancelled)
  have ans: "map_of (externalLookupOptionsMap (modalOf (searchResolved w' qid opts))) fld'
            = Some (case opts of None \<Rightarrow> [] | Some os \<Rightarrow> os)"
    if "find (\<lambda>q. fst q = qid) (inflight w') = Some (qid, fld', c)"
    using that by (rule searchResolved_stores)
  show ?thesis using rec one infl fire canc ans by blast
qed


theorem debounce_one_query_answers_unchecked_witness:
  "(let w = newWorld (connectedCallback (newModal [(''Id'', JStr ''001'')] ''Account''
                        [lookupField ''OwnerId'' True]));
        typed = typeKeys w ''OwnerId'' [''a'', ''ab'', ''abc''];
        fired = timerFired typed 3
    in timersRecorded w \<and>
       timersFor typed ''OwnerId'' = [(3, ''OwnerId'', ''abc'')] \<and>
       inflight typed = [] \<and>
       inflight fired = [(1, ''OwnerId'', SearchExternalRecords ''User'' ''abc'' 50)] \<and>
       timersFor fired ''OwnerId'' = [] \<and>
       timerFired typed 1 = typed \<and> timerFired typed 2 = typed \<and>
       map_of (externalLookupOptionsMap
                 (modalOf (searchResolved fired 1 (Some [(''005X'', ''Abcde'')])))) ''OwnerId''
         = Some [(''005X'', ''Abcde'')])"
proof -
  let ?w = "newWorld (connectedCallback (newModal [(''Id'', JStr ''001'')] ''Account''
                        [lookupField ''OwnerId'' True]))"
  let ?vs = "[''a'', ''ab'', ''abc'']"
  let ?typed = "typeKeys ?w ''OwnerId'' ?vs"
  let ?fired = "timerFired ?typed 3"
  let ?q = "SearchExternalRecords ''User'' ''abc'' 50"
  have h1: "timersRecorded ?w" by code_simp
  have h2: "?vs \<noteq> []" by simp
  have n: "nextTimerId ?w + length ?vs - 1 = 3" "nextQueryId ?w = 1" "inflight ?w = []"
    "trim (last ?vs) = ''abc''" by code_simp+
  have tg: "getLookupObjectForField
              (find (\<lambda>f. rawKey f = Some ''OwnerId'') (editFields (modalOf ?w))) = ''User''"
    by code_simp
  have tg': "''User'' \<noteq> []" by simp
  have m: "EXTERNAL_LOOKUP_MAX_RESULTS = 50" by code_simp
  have c1: "1 \<notin> fst ` set (timers ?typed)" "2 \<notin> fst ` set (timers ?typed)" by code_simp+
  have f: "find (\<lambda>q. fst q = 1) (inflight ?fired) = Some (1, ''OwnerId'', ?q)" by code_simp
  note A = debounce_one_query_answers_unchecked
    [OF h1 h2, of "''OwnerId''" 1 1 ?fired "''OwnerId''" ?q "Some [(''005X'', ''Abcde'')]",
     unfolded n tg m]
  note B = debounce_one_query_answers_unchecked
    [OF h1 h2, of "''OwnerId''" 2 1 ?fired "''OwnerId''" ?q "Some [(''005X'', ''Abcde'')]",
     unfolded n tg m]
  have r1: "timersFor ?typed ''OwnerId'' = [(3, ''OwnerId'', ''abc'')]" using A by blast
  have r2: "inflight ?typed = []" using A by blast
  have r3: "inflight ?fired = [] @ [(1, ''OwnerId'', ?q)] \<and> timersFor ?fired ''OwnerId'' = []"
    using A tg' by blast
  have r4: "timerFired ?typed 1 = ?typed" using A c1(1) by blast
  have r5: "timerFired ?typed 2 = ?typed" using B c1(2) by blast
  have r6: "map_of (externalLookupOptionsMap
                 (modalOf (searchResolved ?fired 1 (Some [(''005X'', ''Abcde'')])))) ''OwnerId''
         = Some (case Some [(''005X'', ''Abcde'')] of None \<Rightarrow> [] | Some os \<Rightarrow> os)"
    using A f by blast
  show ?thesis unfolding Let_def using h1 r1 r2 r3 r4 r5 r6 by simp
qed

theorem stale_answer_overwrites_counterexample:
  "(let w0 = newWorld (connectedCallback (newModal [(''Id'', JStr ''001'')] ''Account''
                         [lookupField ''OwnerId'' True]));
        w1 = timerFired (handleExternalLookupInput w0 ''OwnerId'' ''a'') 1;
        w2 = timerFired (handleExternalLookupInput w1 ''OwnerId'' ''abc'') 2;
        w3 = searchResolved w2 2 (Some [(''005B'', ''Abcde'')]);
        w4 = searchResolved w3 1 (Some [(''005A'', ''Aaron'')])
    in inflight w2 = [(1, ''OwnerId'', SearchExternalRecords ''User'' ''a'' 50),
                      (2, ''OwnerId'', SearchExternalRecords ''User'' ''abc'' 50)] \<and>
       map_of (externalLookupSearchTerm (modalOf w4)) ''OwnerId'' = Some ''abc'' \<and>
       map_of (externalLookupOptionsMap (modalOf w3)) ''OwnerId'' = Some [(''005B'', ''Abcde'')] \<and>
       map_of (externalLookupOptionsMap (modalOf w4)) ''OwnerId'' = Some [(''005A'', ''Aaron'')])"
  by code_simp

end
